theory Spec2Isabelle
  imports Main
begin

section \<open>Python strings\<close>

text \<open>
  A Python \<^verbatim>\<open>str\<close> is modelled as a \<^typ>\<open>string\<close>; the character with code \<open>n\<close> stands for
  the code point \<open>U+n\<close>, so the model covers the strings over the code points below 256.
  On these, \<^verbatim>\<open>str.isspace\<close> holds of the code points 9 to 13, 28 to 32, 133 and 160, and
  \<^verbatim>\<open>str.lower\<close> adds 32 to the code points 65 to 90 and 192 to 222 other than 215.
\<close>

definition isspace :: "char \<Rightarrow> bool" where
  "isspace c =
     (let n = (of_char c :: nat)
      in (9 \<le> n \<and> n \<le> 13) \<or> (28 \<le> n \<and> n \<le> 32) \<or> n = 133 \<or> n = 160)"

definition lower_char :: "char \<Rightarrow> char" where
  "lower_char c =
     (let n = (of_char c :: nat)
      in if (65 \<le> n \<and> n \<le> 90) \<or> (192 \<le> n \<and> n \<le> 222 \<and> n \<noteq> 215)
         then char_of (n + 32) else c)"

definition lower :: "string \<Rightarrow> string" where
  "lower s = map lower_char s"

definition lstrip :: "string \<Rightarrow> string" where
  "lstrip s = dropWhile isspace s"

definition rstrip :: "string \<Rightarrow> string" where
  "rstrip s = rev (dropWhile isspace (rev s))"

definition strip :: "string \<Rightarrow> string" where
  "strip s = lstrip (rstrip s)"

text \<open>
  \<^verbatim>\<open>s.split(sep)\<close> for a one-character separator: the pieces between the separators, in
  order; a string without a separator is its only piece, so the result is never empty.
\<close>

fun split :: "char \<Rightarrow> string \<Rightarrow> string list" where
  "split sep [] = [[]]"
| "split sep (c # cs) =
     (if c = sep then [] # split sep cs
      else (case split sep cs of
              [] \<Rightarrow> [[c]]
            | p # ps \<Rightarrow> (c # p) # ps))"

text \<open>\<^verbatim>\<open>sep.join(lines)\<close>.\<close>

fun join :: "string \<Rightarrow> string list \<Rightarrow> string" where
  "join sep [] = []"
| "join sep [l] = l"
| "join sep (l # ls) = l @ sep @ join sep ls"

section \<open>Language preference parser\<close>

text \<open>
  \<^verbatim>\<open>
  def _parse_languages(lang: Optional[str]) -> List[str]:
      if not lang:
          return ["en"]
      languages = [code.strip().lower() for code in lang.split(",")]
      return [code for code in languages if code]
  \<close>
  \<^verbatim>\<open>not lang\<close> holds of \<^verbatim>\<open>None\<close> and of the empty string.
\<close>

definition parse_languages :: "string option \<Rightarrow> string list" where
  "parse_languages lang =
     (case lang of
        None \<Rightarrow> [''en'']
      | Some s \<Rightarrow>
          if s = [] then [''en'']
          else (let languages = map (\<lambda>code. lower (strip code)) (split (CHR '','') s)
                in filter (\<lambda>code. code \<noteq> []) languages))"

section \<open>Python integers as text\<close>

text \<open>
  \<^verbatim>\<open>str(n)\<close> and \<^verbatim>\<open>format(n, "0Wd")\<close> for an integer \<open>n\<close>: the decimal digits of its
  absolute value (\<open>dec_digits\<close>, applied from 0 on only), after a minus sign when \<open>n\<close> is
  negative; the format pads with zeros between the sign and the digits up to the width \<open>W\<close>
  and never cuts digits off.
\<close>

definition digit_char :: "int \<Rightarrow> char" where
  "digit_char d = char_of (48 + d)"

function dec_digits :: "int \<Rightarrow> string" where
  "dec_digits n =
     (if n < 10 then [digit_char n] else dec_digits (n div 10) @ [digit_char (n mod 10)])"
  by pat_completeness auto
termination
  by (relation "measure nat") auto

declare dec_digits.simps [simp del]

definition str_int :: "int \<Rightarrow> string" where
  "str_int n = (if n < 0 then CHR ''-'' # dec_digits (- n) else dec_digits n)"

definition format_d :: "nat \<Rightarrow> int \<Rightarrow> string" where
  "format_d w n =
     (let ds = dec_digits \<bar>n\<bar>;
          sgn = (if n < 0 then ''-'' else [])
      in sgn @ replicate (w - length sgn - length ds) (CHR ''0'') @ ds)"

section \<open>Exceptions\<close>

text \<open>
  An exception is its class and its message (\<^verbatim>\<open>str(e)\<close>). The classes are the eleven that
  \<^verbatim>\<open>main.py\<close> imports from the transcript library, any other class of that library, and the
  built-in classes (by name).
\<close>

datatype exc_class =
    NoTranscriptFound
  | TranscriptsDisabled
  | VideoUnavailable
  | VideoUnplayable
  | IpBlocked
  | RequestBlocked
  | AgeRestricted
  | InvalidVideoId
  | PoTokenRequired
  | YouTubeTranscriptApiException
  | YouTubeRequestFailed
  | OtherProviderClass string
  | BuiltinClass string

record exc =
  cls :: exc_class
  msg :: string

section \<open>Python floats\<close>

text \<open>
  A Python \<^verbatim>\<open>float\<close> is an IEEE 754 double: \<open>Finite m e\<close> is the number \<open>m * 2 ^ e\<close>, beside the
  two infinities and NaN. Every finite double is such a number, with \<open>m\<close> of at most 53 bits
  and \<open>e\<close> from \<open>-1074\<close> to \<open>971\<close>; \<open>1.0\<close> is \<open>Finite 1 0\<close> and \<open>3661.5\<close> is
  \<open>Finite 7323 (- 1)\<close>. The sign of a zero is not kept: no operation below tells \<open>-0.0\<close>
  from \<open>0.0\<close>. Arithmetic computes the exact result and rounds it to the nearest double,
  ties to the even significand (\<open>to_double\<close>): 53 bits of significand, the least exponent
  \<open>-1074\<close>, and an infinity from \<open>2 ^ 1024\<close> on. The operations are defined on every
  \<open>Finite m e\<close>, a double or not.
\<close>

datatype pyfloat = Finite int int | PosInf | NegInf | NaN

text \<open>The number of bits of a positive integer.\<close>

function bitlen :: "int \<Rightarrow> nat" where
  "bitlen n = (if n \<le> 0 then 0 else Suc (bitlen (n div 2)))"
  by pat_completeness auto
termination
  by (relation "measure nat") auto

declare bitlen.simps [simp del]

text \<open>\<open>m / 2 ^ k\<close> rounded to the nearest integer, a tie to the even one.\<close>

definition rne_shift :: "int \<Rightarrow> nat \<Rightarrow> int" where
  "rne_shift m k =
     (let q = m div 2 ^ k; r = m mod 2 ^ k
      in if 2 * r > 2 ^ k \<or> (2 * r = 2 ^ k \<and> odd q) then q + 1 else q)"

definition to_double :: "int \<Rightarrow> int \<Rightarrow> pyfloat" where
  "to_double m e =
     (let t = max (- 1074) (e + int (bitlen \<bar>m\<bar>) - 53);
          m' = (if t \<le> e then m else rne_shift m (nat (t - e)));
          e' = (if t \<le> e then e else t)
      in if m' \<noteq> 0 \<and> int (bitlen \<bar>m'\<bar>) + e' > 1024
         then (if m' < 0 then NegInf else PosInf)
         else Finite m' e')"

fun float_sign :: "pyfloat \<Rightarrow> int" where
  "float_sign (Finite m e) = sgn m"
| "float_sign PosInf = 1"
| "float_sign NegInf = - 1"
| "float_sign NaN = 0"

fun float_mul :: "pyfloat \<Rightarrow> pyfloat \<Rightarrow> pyfloat" where
  "float_mul NaN y = NaN"
| "float_mul x NaN = NaN"
| "float_mul (Finite a e) (Finite b f) = to_double (a * b) (e + f)"
| "float_mul x y =
     (let s = float_sign x * float_sign y
      in if s = 0 then NaN else if 0 < s then PosInf else NegInf)"

fun float_add :: "pyfloat \<Rightarrow> pyfloat \<Rightarrow> pyfloat" where
  "float_add NaN y = NaN"
| "float_add x NaN = NaN"
| "float_add (Finite a e) (Finite b f) =
     (let g = min e f in to_double (a * 2 ^ nat (e - g) + b * 2 ^ nat (f - g)) g)"
| "float_add PosInf NegInf = NaN"
| "float_add NegInf PosInf = NaN"
| "float_add (Finite a e) y = y"
| "float_add x y = x"

text \<open>
  \<^verbatim>\<open>round(x)\<close> of a float is the nearest \<^verbatim>\<open>int\<close>, a tie to the even one; it raises
  \<^verbatim>\<open>OverflowError\<close> on an infinity and \<^verbatim>\<open>ValueError\<close> on NaN.
\<close>

fun py_round :: "pyfloat \<Rightarrow> exc + int" where
  "py_round (Finite m e) = Inr (if 0 \<le> e then m * 2 ^ nat e else rne_shift m (nat (- e)))"
| "py_round NaN =
     Inl \<lparr>cls = BuiltinClass ''ValueError'', msg = ''cannot convert float NaN to integer''\<rparr>"
| "py_round x =
     Inl \<lparr>cls = BuiltinClass ''OverflowError'',
          msg = ''cannot convert float infinity to integer''\<rparr>"

fun float_nonneg :: "pyfloat \<Rightarrow> bool" where
  "float_nonneg (Finite m e) = (0 \<le> m)"
| "float_nonneg PosInf = True"
| "float_nonneg x = False"

fun float_finite :: "pyfloat \<Rightarrow> bool" where
  "float_finite (Finite m e) = True"
| "float_finite x = False"

text \<open>The floats from 0 on and below \<open>2 ^ 1000\<close>.\<close>

fun float_in_range :: "pyfloat \<Rightarrow> bool" where
  "float_in_range (Finite m e) = (0 \<le> m \<and> int (bitlen m) + e \<le> 1000)"
| "float_in_range x = False"

section \<open>Timestamp formatter\<close>

text \<open>
  \<^verbatim>\<open>
  def _to_srt_timestamp(seconds: float) -> str:
      milliseconds_total = int(round(seconds * 1000))
      hours = milliseconds_total // 3_600_000
      minutes = (milliseconds_total % 3_600_000) // 60_000
      secs = (milliseconds_total % 60_000) // 1000
      millis = milliseconds_total % 1000
      return f"{hours:02d}:{minutes:02d}:{secs:02d},{millis:03d}"
  \<close>
  and \<^verbatim>\<open>_to_vtt_timestamp\<close>, the same text with \<^verbatim>\<open>.\<close> for \<^verbatim>\<open>,\<close> in the last line. In
  \<^verbatim>\<open>seconds * 1000\<close> the integer is converted to the float \<open>1000.0\<close>; \<^verbatim>\<open>//\<close> and \<^verbatim>\<open>%\<close>
  round towards minus infinity, as \<open>div\<close> and \<open>mod\<close> do.
\<close>

definition to_srt_timestamp :: "pyfloat \<Rightarrow> exc + string" where
  "to_srt_timestamp seconds =
     (case py_round (float_mul seconds (Finite 1000 0)) of
        Inl err \<Rightarrow> Inl err
      | Inr milliseconds_total \<Rightarrow>
          (let hours = milliseconds_total div 3600000;
               minutes = (milliseconds_total mod 3600000) div 60000;
               secs = (milliseconds_total mod 60000) div 1000;
               millis = milliseconds_total mod 1000
           in Inr (format_d 2 hours @ '':'' @ format_d 2 minutes @ '':'' @ format_d 2 secs
                   @ '','' @ format_d 3 millis)))"

definition to_vtt_timestamp :: "pyfloat \<Rightarrow> exc + string" where
  "to_vtt_timestamp seconds =
     (case py_round (float_mul seconds (Finite 1000 0)) of
        Inl err \<Rightarrow> Inl err
      | Inr milliseconds_total \<Rightarrow>
          (let hours = milliseconds_total div 3600000;
               minutes = (milliseconds_total mod 3600000) div 60000;
               secs = (milliseconds_total mod 60000) div 1000;
               millis = milliseconds_total mod 1000
           in Inr (format_d 2 hours @ '':'' @ format_d 2 minutes @ '':'' @ format_d 2 secs
                   @ ''.'' @ format_d 3 millis)))"

text \<open>
  The words of the spec for the fields of a timestamp: an integer from 0 on, padded with
  zeros on the left to \<open>w\<close> digits, and what a decimal digit is.
\<close>

definition zero_pad :: "nat \<Rightarrow> int \<Rightarrow> string" where
  "zero_pad w n = replicate (w - length (dec_digits n)) (CHR ''0'') @ dec_digits n"

definition isdigit :: "char \<Rightarrow> bool" where
  "isdigit c = (let n = (of_char c :: int) in 48 \<le> n \<and> n \<le> 57)"

abbreviation milliseconds_total :: "pyfloat \<Rightarrow> exc + int" where
  "milliseconds_total seconds \<equiv> py_round (float_mul seconds (Finite 1000 0))"

section \<open>Caption serializers\<close>

text \<open>
  A caption snippet of the transcript library: its text (the field \<^verbatim>\<open>text\<close>), its start and
  its duration in seconds. A fetched transcript is iterated as the list of its snippets.
\<close>

record snippet =
  snippet_text :: string
  start :: pyfloat
  duration :: pyfloat

text \<open>
  \<^verbatim>\<open>
  def _format_txt(transcript):
      return "\n".join(snippet.text for snippet in transcript)
  \<close>
\<close>

definition format_txt :: "snippet list \<Rightarrow> string" where
  "format_txt transcript = join ''\<newline>'' (map snippet_text transcript)"

text \<open>
  \<^verbatim>\<open>
  def _format_srt(transcript):
      lines = []
      for idx, snippet in enumerate(transcript, start=1):
          start = _to_srt_timestamp(snippet.start)
          end = _to_srt_timestamp(snippet.start + snippet.duration)
          lines.append(str(idx))
          lines.append(f"{start} --> {end}")
          lines.append(snippet.text)
          lines.append("")  # blank line between cues
      return "\n".join(lines).rstrip() + "\n"
  \<close>
  The loop is \<open>srt_loop\<close>, from the index and the lines so far; an exception of a timestamp
  leaves the loop and the function.
\<close>

fun srt_loop :: "int \<Rightarrow> snippet list \<Rightarrow> string list \<Rightarrow> exc + string list" where
  "srt_loop idx [] lines = Inr lines"
| "srt_loop idx (snippet # rest) lines =
     (case to_srt_timestamp (start snippet) of
        Inl err \<Rightarrow> Inl err
      | Inr start_ts \<Rightarrow>
          (case to_srt_timestamp (float_add (start snippet) (duration snippet)) of
             Inl err \<Rightarrow> Inl err
           | Inr end_ts \<Rightarrow>
               srt_loop (idx + 1) rest
                 (lines @
                  [str_int idx, start_ts @ '' --> '' @ end_ts, snippet_text snippet, []])))"

definition format_srt :: "snippet list \<Rightarrow> exc + string" where
  "format_srt transcript =
     (case srt_loop 1 transcript [] of
        Inl err \<Rightarrow> Inl err
      | Inr lines \<Rightarrow> Inr (rstrip (join ''\<newline>'' lines) @ ''\<newline>''))"

text \<open>
  \<^verbatim>\<open>
  def _format_vtt(transcript):
      lines = ["WEBVTT", ""]
      for snippet in transcript:
          start = _to_vtt_timestamp(snippet.start)
          end = _to_vtt_timestamp(snippet.start + snippet.duration)
          lines.append(f"{start} --> {end}")
          lines.append(snippet.text)
          lines.append("")  # blank line between cues
      return "\n".join(lines).rstrip() + "\n"
  \<close>
\<close>

fun vtt_loop :: "snippet list \<Rightarrow> string list \<Rightarrow> exc + string list" where
  "vtt_loop [] lines = Inr lines"
| "vtt_loop (snippet # rest) lines =
     (case to_vtt_timestamp (start snippet) of
        Inl err \<Rightarrow> Inl err
      | Inr start_ts \<Rightarrow>
          (case to_vtt_timestamp (float_add (start snippet) (duration snippet)) of
             Inl err \<Rightarrow> Inl err
           | Inr end_ts \<Rightarrow>
               vtt_loop rest
                 (lines @ [start_ts @ '' --> '' @ end_ts, snippet_text snippet, []])))"

definition format_vtt :: "snippet list \<Rightarrow> exc + string" where
  "format_vtt transcript =
     (case vtt_loop transcript [''WEBVTT'', []] of
        Inl err \<Rightarrow> Inl err
      | Inr lines \<Rightarrow> Inr (rstrip (join ''\<newline>'' lines) @ ''\<newline>''))"

section \<open>Transcript endpoint handler\<close>

text \<open>
  The transcript library is outside \<^verbatim>\<open>main.py\<close>: the handler is modelled over the calls it
  makes, each returning a value or raising an exception. \<open>'l\<close> is the type of a transcript
  list and \<open>'t\<close> the type of a transcript. The client that \<^verbatim>\<open>_get_api()\<close> builds from the
  environment, once per process, is given by the outcome of that call.
\<close>

record ('l, 't) api =
  list_transcripts :: "string \<Rightarrow> exc + 'l"
  find_transcript :: "'l \<Rightarrow> string list \<Rightarrow> exc + 't"
  find_generated_transcript :: "'l \<Rightarrow> string list \<Rightarrow> exc + 't"
  fetch :: "'t \<Rightarrow> bool \<Rightarrow> exc + snippet list"

datatype output_format = Json | Srt | Vtt | Txt

text \<open>
  What a call of the handler ends in: one of the two responses it returns, the
  \<^verbatim>\<open>HTTPException\<close> it raises (status code and detail), or an exception that none of its
  \<^verbatim>\<open>except\<close> clauses catches and that leaves it.
\<close>

datatype response =
    JSONResponse "snippet list"
  | PlainTextResponse string string
  | HTTPException nat string
  | Uncaught exc

text \<open>
  The classes of the first \<^verbatim>\<open>except\<close> clause of \<^verbatim>\<open>get_transcript\<close>, in its order. A clause
  catches an exception that is an instance of one of its classes: \<open>sub c d\<close> says that the
  class \<open>c\<close> is \<open>d\<close> or a subclass of \<open>d\<close>. The class hierarchy is the library's and is a
  parameter of the handler.
\<close>

definition not_found_classes :: "exc_class list" where
  "not_found_classes =
     [NoTranscriptFound, TranscriptsDisabled, VideoUnavailable, VideoUnplayable, IpBlocked,
      RequestBlocked, AgeRestricted, InvalidVideoId, PoTokenRequired,
      YouTubeTranscriptApiException]"

text \<open>
  The body of the \<^verbatim>\<open>try\<close> statement:
  \<^verbatim>\<open>
  api = _get_api()
  transcript_list = api.list(video_id)
  try:
      transcript = transcript_list.find_transcript(languages)
  except NoTranscriptFound:
      transcript = transcript_list.find_generated_transcript(languages)
  fetched = transcript.fetch(preserve_formatting=preserve_formatting)
  if output_format == "json":
      return JSONResponse(content=fetched.to_raw_data())
  elif output_format == "txt":
      return PlainTextResponse(content=_format_txt(fetched), media_type="text/plain")
  elif output_format == "srt":
      return PlainTextResponse(content=_format_srt(fetched), media_type="text/plain")
  elif output_format == "vtt":
      return PlainTextResponse(content=_format_vtt(fetched), media_type="text/plain")
  return JSONResponse(content=fetched.to_raw_data())
  \<close>
  The last line is not reached: the format is one of the four. \<open>Inl\<close> is the exception that
  leaves the body. \<^verbatim>\<open>JSONResponse\<close> encodes its content when it is built, with
  \<^verbatim>\<open>allow_nan=False\<close>: it raises \<^verbatim>\<open>ValueError\<close> when a start or a duration is an infinity
  or NaN.
\<close>

definition json_response :: "snippet list \<Rightarrow> exc + response" where
  "json_response content =
     (if list_all (\<lambda>s. float_finite (start s) \<and> float_finite (duration s)) content
      then Inr (JSONResponse content)
      else Inl \<lparr>cls = BuiltinClass ''ValueError'',
                msg = ''Out of range float values are not JSON compliant''\<rparr>)"

definition select_transcript ::
  "(exc_class \<Rightarrow> exc_class \<Rightarrow> bool) \<Rightarrow> ('l, 't) api \<Rightarrow> 'l \<Rightarrow> string list \<Rightarrow>
   exc + 't" where
  "select_transcript sub a transcript_list languages =
     (case find_transcript a transcript_list languages of
        Inl err \<Rightarrow>
          if sub (cls err) NoTranscriptFound
          then find_generated_transcript a transcript_list languages
          else Inl err
      | Inr transcript \<Rightarrow> Inr transcript)"

definition render :: "output_format \<Rightarrow> snippet list \<Rightarrow> exc + response" where
  "render output_format fetched =
     (case output_format of
        Json \<Rightarrow> json_response fetched
      | Txt \<Rightarrow> Inr (PlainTextResponse (format_txt fetched) ''text/plain'')
      | Srt \<Rightarrow>
          (case format_srt fetched of
             Inl err \<Rightarrow> Inl err
           | Inr body \<Rightarrow> Inr (PlainTextResponse body ''text/plain''))
      | Vtt \<Rightarrow>
          (case format_vtt fetched of
             Inl err \<Rightarrow> Inl err
           | Inr body \<Rightarrow> Inr (PlainTextResponse body ''text/plain'')))"

definition try_body ::
  "(exc_class \<Rightarrow> exc_class \<Rightarrow> bool) \<Rightarrow> exc + ('l, 't) api \<Rightarrow> string \<Rightarrow> string list \<Rightarrow>
   output_format \<Rightarrow> bool \<Rightarrow> exc + response" where
  "try_body sub get_api video_id languages output_format preserve_formatting =
     (case get_api of
        Inl err \<Rightarrow> Inl err
      | Inr a \<Rightarrow>
          (case list_transcripts a video_id of
             Inl err \<Rightarrow> Inl err
           | Inr transcript_list \<Rightarrow>
               (case select_transcript sub a transcript_list languages of
                  Inl err \<Rightarrow> Inl err
                | Inr transcript \<Rightarrow>
                    (case fetch a transcript preserve_formatting of
                       Inl err \<Rightarrow> Inl err
                     | Inr fetched \<Rightarrow> render output_format fetched))))"

text \<open>
  The \<^verbatim>\<open>except\<close> clauses, tried in their order:
  \<^verbatim>\<open>
  except (NoTranscriptFound, TranscriptsDisabled, VideoUnavailable, VideoUnplayable,
          IpBlocked, RequestBlocked, AgeRestricted, InvalidVideoId, PoTokenRequired,
          YouTubeTranscriptApiException) as e:
      raise HTTPException(status_code=404, detail=str(e)) from e
  except YouTubeRequestFailed as e:
      raise HTTPException(status_code=502, detail=str(e)) from e
  except Exception as e:
      raise HTTPException(status_code=500, detail="Internal Server Error") from e
  \<close>
  An exception that is no instance of \<^verbatim>\<open>Exception\<close> is caught by no clause.
\<close>

definition handle_exception :: "(exc_class \<Rightarrow> exc_class \<Rightarrow> bool) \<Rightarrow> exc \<Rightarrow> response" where
  "handle_exception sub e =
     (if list_ex (\<lambda>c. sub (cls e) c) not_found_classes then HTTPException 404 (msg e)
      else if sub (cls e) YouTubeRequestFailed then HTTPException 502 (msg e)
      else if sub (cls e) (BuiltinClass ''Exception'')
      then HTTPException 500 ''Internal Server Error''
      else Uncaught e)"

text \<open>
  \<^verbatim>\<open>
  def get_transcript(video_id, lang, output_format, preserve_formatting):
      if not video_id:
          raise HTTPException(status_code=400,
                              detail="Missing required query parameter 'videoId'.")
      languages = _parse_languages(lang)
      try: ...
  \<close>
  An \<^verbatim>\<open>HTTPException\<close> that the handler raises is its response.
\<close>

definition get_transcript ::
  "(exc_class \<Rightarrow> exc_class \<Rightarrow> bool) \<Rightarrow> exc + ('l, 't) api \<Rightarrow> string option \<Rightarrow>
   string option \<Rightarrow> output_format \<Rightarrow> bool \<Rightarrow> response" where
  "get_transcript sub get_api video_id lang output_format preserve_formatting =
     (case video_id of
        None \<Rightarrow>
          HTTPException 400
            (''Missing required query parameter '' @ [CHR 0x27] @ ''videoId'' @ [CHR 0x27]
             @ ''.'')
      | Some v \<Rightarrow>
          if v = [] then
            HTTPException 400
              (''Missing required query parameter '' @ [CHR 0x27] @ ''videoId'' @ [CHR 0x27]
               @ ''.'')
          else
            (let languages = parse_languages lang
             in case try_body sub get_api v languages output_format preserve_formatting of
                  Inl e \<Rightarrow> handle_exception sub e
                | Inr r \<Rightarrow> r))"

text \<open>
  Modelled from the spec: the class hierarchy of the exceptions of the transcript library,
  which \<^verbatim>\<open>main.py\<close> imports and does not define. The spec reads the class
  \<^verbatim>\<open>YouTubeTranscriptApiException\<close> of the first \<^verbatim>\<open>except\<close> clause as "any other
  provider-defined exception": it is the base class of the library's exceptions. Every
  exception class of the library, \<^verbatim>\<open>YouTubeRequestFailed\<close> among them, is that class or a
  subclass of it, and no built-in class is. The built-in class \<^verbatim>\<open>Exception\<close> is above
  the classes of the library and above the built-in classes other than the five that derive
  from \<^verbatim>\<open>BaseException\<close> only. No other class is above another one here: the clauses of
  the handler name no other built-in class.
\<close>

definition base_only_classes :: "string list" where
  "base_only_classes =
     [''BaseException'', ''BaseExceptionGroup'', ''GeneratorExit'', ''KeyboardInterrupt'',
      ''SystemExit'']"

definition provider_subclass :: "exc_class \<Rightarrow> exc_class \<Rightarrow> bool" where
  "provider_subclass c d =
     (c = d \<or>
      (d = YouTubeTranscriptApiException \<and> (case c of BuiltinClass n \<Rightarrow> False | _ \<Rightarrow> True)) \<or>
      (d = BuiltinClass ''Exception'' \<and>
       (case c of BuiltinClass n \<Rightarrow> \<not> List.member base_only_classes n | _ \<Rightarrow> True)))"

text \<open>
  A provider for the examples: each of its four calls has a fixed outcome, whatever its
  arguments.
\<close>

definition const_api ::
  "exc + unit \<Rightarrow> exc + unit \<Rightarrow> exc + unit \<Rightarrow> exc + snippet list \<Rightarrow> (unit, unit) api" where
  "const_api listed found generated fetched =
     \<lparr>list_transcripts = (\<lambda>video_id. listed),
      find_transcript = (\<lambda>transcript_list languages. found),
      find_generated_transcript = (\<lambda>transcript_list languages. generated),
      fetch = (\<lambda>transcript preserve_formatting. fetched)\<rparr>"

section \<open>Facts about the string operations\<close>

lemma split_not_Nil: "split sep s \<noteq> []"
  by (induction s) (auto split: list.splits)

lemma join_Cons: "ls \<noteq> [] \<Longrightarrow> join sep (l # ls) = l @ sep @ join sep ls"
  by (cases ls) simp_all

lemma join_split: "join [sep] (split sep s) = s"
proof (induction s)
  case Nil
  show ?case by simp
next
  case (Cons c cs)
  obtain p ps where ps: "split sep cs = p # ps"
    using split_not_Nil [of sep cs] by (cases "split sep cs") auto
  show ?case
  proof (cases "c = sep")
    case True
    then show ?thesis using Cons ps by simp
  next
    case False
    then show ?thesis using Cons ps by (cases ps) simp_all
  qed
qed

lemma split_no_sep: "p \<in> set (split sep s) \<Longrightarrow> sep \<notin> set p"
proof (induction s arbitrary: p)
  case Nil
  then show ?case by simp
next
  case (Cons c cs)
  then show ?case
    by (auto split: if_splits list.splits)
qed

lemma length_split: "length (split sep s) = Suc (count_list s sep)"
  by (induction s) (auto split: list.splits simp: split_not_Nil)

lemma rstrip_decomp: "s = rstrip s @ rev (takeWhile isspace (rev s))"
proof -
  have "rev (takeWhile isspace (rev s) @ dropWhile isspace (rev s)) = s" by simp
  then show ?thesis unfolding rstrip_def rev_append by (rule sym)
qed

lemma strip_decomp:
  "s = takeWhile isspace (rstrip s) @ strip s @ rev (takeWhile isspace (rev s))"
proof -
  have "rstrip s = takeWhile isspace (rstrip s) @ strip s"
    by (simp add: strip_def lstrip_def)
  then show ?thesis using rstrip_decomp [of s] by (metis append.assoc)
qed

lemma rstrip_Nil_iff: "rstrip s = [] \<longleftrightarrow> list_all isspace s"
  by (simp add: rstrip_def dropWhile_eq_Nil_conv list_all_iff)

lemma rstrip_last: "rstrip s \<noteq> [] \<Longrightarrow> \<not> isspace (last (rstrip s))"
proof -
  assume "rstrip s \<noteq> []"
  then have ne: "dropWhile isspace (rev s) \<noteq> []" by (simp add: rstrip_def)
  then have "\<not> isspace (hd (dropWhile isspace (rev s)))" by (rule hd_dropWhile)
  then show ?thesis using ne by (simp add: rstrip_def last_rev)
qed

lemma strip_Nil_iff: "strip s = [] \<longleftrightarrow> list_all isspace s"
proof
  assume "strip s = []"
  then have a: "\<forall>c \<in> set (rstrip s). isspace c"
    by (simp add: strip_def lstrip_def dropWhile_eq_Nil_conv)
  show "list_all isspace s"
  proof (cases "rstrip s = []")
    case True then show ?thesis by (simp add: rstrip_Nil_iff)
  next
    case False
    then have "last (rstrip s) \<in> set (rstrip s)" by simp
    with a rstrip_last [OF False] show ?thesis by blast
  qed
next
  assume "list_all isspace s"
  then have "rstrip s = []" by (simp add: rstrip_Nil_iff)
  then show "strip s = []" by (simp add: strip_def lstrip_def)
qed

lemma strip_ends:
  assumes "strip s \<noteq> []"
  shows "\<not> isspace (hd (strip s)) \<and> \<not> isspace (last (strip s))"
proof -
  from assms have ne: "dropWhile isspace (rstrip s) \<noteq> []" by (simp add: strip_def lstrip_def)
  then have h: "\<not> isspace (hd (strip s))" unfolding strip_def lstrip_def by (rule hd_dropWhile)
  from ne have r: "rstrip s \<noteq> []" by auto
  have "rstrip s = takeWhile isspace (rstrip s) @ strip s"
    by (simp add: strip_def lstrip_def)
  then have "last (rstrip s) = last (strip s)" using assms by (metis last_appendR)
  then show ?thesis using h rstrip_last [OF r] by simp
qed

lemma lower_Nil_iff: "lower s = [] \<longleftrightarrow> s = []"
  by (simp add: lower_def)

section \<open>The language preference parser: results\<close>

lemma parse_languages_Some:
  "s \<noteq> [] \<Longrightarrow>
   parse_languages (Some s) =
     filter (\<lambda>p. p \<noteq> []) (map (\<lambda>p. lower (strip p)) (split (CHR '','') s))"
  by (simp add: parse_languages_def)

text \<open>
  Claim C3, as amended. The parser's result has at least one entry exactly when the input is
  absent, is the empty string, or has a comma-separated piece with a character that is not
  whitespace. For an input of whitespace and commas only the result is the empty list: the
  \<open>en\<close> fallback is applied before the split, not after the filter.
\<close>

theorem parse_languages_nonempty_iff:
  "parse_languages lang \<noteq> [] \<longleftrightarrow>
     (case lang of
        None \<Rightarrow> True
      | Some s \<Rightarrow> s = [] \<or> list_ex (\<lambda>p. \<not> list_all isspace p) (split (CHR '','') s))"
proof (cases lang)
  case None
  then show ?thesis by (simp add: parse_languages_def)
next
  case (Some s)
  show ?thesis
  proof (cases "s = []")
    case True
    with Some show ?thesis by (simp add: parse_languages_def)
  next
    case False
    have "parse_languages (Some s) \<noteq> [] \<longleftrightarrow>
          (\<exists>p \<in> set (split (CHR '','') s). lower (strip p) \<noteq> [])"
      using False by (auto simp: parse_languages_Some filter_empty_conv)
    also have "\<dots> \<longleftrightarrow> (\<exists>p \<in> set (split (CHR '','') s). \<not> list_all isspace p)"
      by (simp add: lower_Nil_iff strip_Nil_iff)
    finally show ?thesis using Some False by (simp add: list_ex_iff)
  qed
qed

theorem parse_languages_nonempty_iff_witness:
  "parse_languages (Some ''DE, en ,'') \<noteq> [] \<and>
   list_ex (\<lambda>p. \<not> list_all isspace p) (split (CHR '','') ''DE, en ,'')"
  using parse_languages_nonempty_iff [of "Some ''DE, en ,''"] by code_simp

theorem parse_languages_only_commas_counterexample:
  "parse_languages (Some '','') = [] \<and> \<not> 1 \<le> length (parse_languages (Some '','')) "
  by code_simp

text \<open>
  Claim C4. Absent and empty input give \<open>["en"]\<close>. Any other input gives its comma-separated
  pieces in order (joined by commas they are the input, and none contains a comma), each
  stripped of surrounding whitespace and lowercased, without the pieces that are empty after
  stripping; \<open>"DE, en ,"\<close> gives \<open>["de", "en"]\<close>. The parser has no failing branch.
\<close>

theorem parse_languages_pieces:
  "parse_languages None = [''en''] \<and>
   parse_languages (Some []) = [''en''] \<and>
   (s \<noteq> [] \<longrightarrow>
      parse_languages (Some s) =
        filter (\<lambda>p. p \<noteq> []) (map (\<lambda>p. lower (strip p)) (split (CHR '','') s)) \<and>
      join '','' (split (CHR '','') s) = s \<and>
      (\<forall>p \<in> set (split (CHR '','') s). CHR '','' \<notin> set p)) \<and>
   parse_languages (Some ''DE, en ,'') = [''de'', ''en'']"
proof -
  have a: "parse_languages None = [''en'']" "parse_languages (Some []) = [''en'']"
    by (simp_all add: parse_languages_def)
  have b: "parse_languages (Some ''DE, en ,'') = [''de'', ''en'']"
    by code_simp
  show ?thesis
    using a b by (simp add: parse_languages_Some join_split split_no_sep)
qed

theorem parse_languages_pieces_witness:
  "''DE, en ,'' \<noteq> [] \<and>
   parse_languages (Some ''DE, en ,'') =
     filter (\<lambda>p. p \<noteq> [])
       (map (\<lambda>p. lower (strip p)) (split (CHR '','') ''DE, en ,'')) \<and>
   split (CHR '','') ''DE, en ,'' = [''DE'', '' en '', []] \<and>
   map strip (split (CHR '','') ''DE, en ,'') = [''DE'', ''en'', []]"
proof -
  have "split (CHR '','') ''DE, en ,'' = [''DE'', '' en '', []]" by code_simp
  moreover have "map strip (split (CHR '','') ''DE, en ,'') = [''DE'', ''en'', []]" by code_simp
  ultimately show ?thesis
    using parse_languages_pieces [of "''DE, en ,''"] by simp
qed

section \<open>Facts about decimal formatting\<close>

lemma dec_digits_small: "n < 10 \<Longrightarrow> dec_digits n = [digit_char n]"
  by (subst dec_digits.simps) simp

lemma dec_digits_step:
  "10 \<le> n \<Longrightarrow> dec_digits n = dec_digits (n div 10) @ [digit_char (n mod 10)]"
  by (subst dec_digits.simps) simp

lemma length_dec_digits_1: "n < 10 \<Longrightarrow> length (dec_digits n) = 1"
  by (simp add: dec_digits_small)

lemma length_dec_digits_2: "10 \<le> n \<Longrightarrow> n < 100 \<Longrightarrow> length (dec_digits n) = 2"
proof -
  assume a: "10 \<le> n" "n < 100"
  then have "n div 10 < 10" by simp
  then show ?thesis using a by (simp add: dec_digits_step dec_digits_small)
qed

lemma length_dec_digits_3: "100 \<le> n \<Longrightarrow> n < 1000 \<Longrightarrow> length (dec_digits n) = 3"
proof -
  assume a: "100 \<le> n" "n < 1000"
  then have "10 \<le> n div 10" "n div 10 < 100" by simp_all
  then show ?thesis using a by (simp add: dec_digits_step [of n] length_dec_digits_2)
qed

lemma length_dec_digits_pos: "1 \<le> length (dec_digits n)"
  by (cases "n < 10") (simp_all add: dec_digits_small dec_digits_step)

lemma length_dec_digits_ge2: "10 \<le> n \<Longrightarrow> 2 \<le> length (dec_digits n)"
  using length_dec_digits_pos [of "n div 10"] by (simp add: dec_digits_step)

lemma length_dec_digits_ge3: "100 \<le> n \<Longrightarrow> 3 \<le> length (dec_digits n)"
proof -
  assume a: "100 \<le> n"
  then have "10 \<le> n div 10" by simp
  then have "2 \<le> length (dec_digits (n div 10))" by (rule length_dec_digits_ge2)
  then show ?thesis using a by (simp add: dec_digits_step [of n])
qed

lemma isdigit_digit_char: "0 \<le> d \<Longrightarrow> d < 10 \<Longrightarrow> isdigit (digit_char d)"
  by (simp add: isdigit_def digit_char_def of_char_of)

lemma isdigit_dec_digits: "0 \<le> n \<Longrightarrow> list_all isdigit (dec_digits n)"
proof (induction n rule: dec_digits.induct)
  case (1 n)
  show ?case
  proof (cases "n < 10")
    case True
    then show ?thesis using "1.prems" by (simp add: dec_digits_small isdigit_digit_char)
  next
    case False
    then have "list_all isdigit (dec_digits (n div 10))"
      using "1.IH" "1.prems" by simp
    moreover have "isdigit (digit_char (n mod 10))"
      by (simp add: isdigit_digit_char)
    ultimately show ?thesis using False by (simp add: dec_digits_step)
  qed
qed

lemma format_d_nonneg: "0 \<le> n \<Longrightarrow> format_d w n = zero_pad w n"
  by (simp add: format_d_def zero_pad_def Let_def)

lemma isdigit_zero_pad: "0 \<le> n \<Longrightarrow> list_all isdigit (zero_pad w n)"
proof -
  assume "0 \<le> n"
  then have "list_all isdigit (dec_digits n)" by (rule isdigit_dec_digits)
  moreover have "list_all isdigit (replicate (w - length (dec_digits n)) (CHR ''0''))"
    by (simp add: list_all_iff isdigit_def)
  ultimately show ?thesis by (simp add: zero_pad_def)
qed

lemma length_zero_pad: "length (zero_pad w n) = max w (length (dec_digits n))"
  by (simp add: zero_pad_def)

lemma length_zero_pad_2: "0 \<le> n \<Longrightarrow> n < 100 \<Longrightarrow> length (zero_pad 2 n) = 2"
  by (cases "n < 10") (simp_all add: length_zero_pad length_dec_digits_1 length_dec_digits_2)

lemma length_zero_pad_3: "0 \<le> n \<Longrightarrow> n < 1000 \<Longrightarrow> length (zero_pad 3 n) = 3"
proof -
  assume "0 \<le> n" "n < 1000"
  then consider "n < 10" | "10 \<le> n" "n < 100" | "100 \<le> n" "n < 1000" by linarith
  then show ?thesis
    by cases (simp_all add: length_zero_pad length_dec_digits_1 length_dec_digits_2
        length_dec_digits_3)
qed

lemma length_zero_pad_2_iff:
  assumes "0 \<le> n"
  shows "length (zero_pad 2 n) = 2 \<longleftrightarrow> n < 100"
proof (cases "n < 100")
  case True
  then show ?thesis using assms by (simp add: length_zero_pad_2)
next
  case False
  then have "3 \<le> length (dec_digits n)" by (simp add: length_dec_digits_ge3)
  then show ?thesis using False by (simp add: length_zero_pad)
qed

lemma length_zero_pad_2_ge: "2 \<le> length (zero_pad 2 n)"
  by (simp add: length_zero_pad)

section \<open>Facts about the floats\<close>

lemma rne_shift_nonneg: "0 \<le> m \<Longrightarrow> 0 \<le> rne_shift m k"
  by (simp add: rne_shift_def Let_def pos_imp_zdiv_nonneg_iff)

lemma to_double_nonneg: "0 \<le> m \<Longrightarrow> float_nonneg (to_double m e)"
proof -
  assume m: "0 \<le> m"
  define t where "t = max (- 1074) (e + int (bitlen \<bar>m\<bar>) - 53)"
  define m' where "m' = (if t \<le> e then m else rne_shift m (nat (t - e)))"
  have "0 \<le> m'"
    using m rne_shift_nonneg [OF m] by (simp add: m'_def)
  then show ?thesis
    by (simp add: to_double_def Let_def t_def [symmetric] m'_def [symmetric])
qed

lemma float_mul_1000_nonneg:
  "float_nonneg x \<Longrightarrow> float_nonneg (float_mul x (Finite 1000 0))"
  by (cases x) (simp_all add: to_double_nonneg)

lemma py_round_nonneg: "float_nonneg y \<Longrightarrow> py_round y = Inr ms \<Longrightarrow> 0 \<le> ms"
  using rne_shift_nonneg by (cases y) (auto split: if_splits)

lemma py_round_finite: "float_finite y \<Longrightarrow> \<exists>ms. py_round y = Inr ms"
  by (cases y) simp_all

lemma py_round_returns_iff: "(\<exists>ms. py_round y = Inr ms) \<longleftrightarrow> float_finite y"
  by (cases y) simp_all

lemma rne_shift_nearest:
  "2 * \<bar>rne_shift m k * 2 ^ k - m\<bar> \<le> 2 ^ k \<and>
   (2 * \<bar>rne_shift m k * 2 ^ k - m\<bar> = 2 ^ k \<longrightarrow> even (rne_shift m k))"
proof -
  define d :: int where "d = 2 ^ k"
  define q where "q = m div d"
  define r where "r = m mod d"
  have d: "0 < d" by (simp add: d_def)
  have r: "0 \<le> r" "r < d" using d by (simp_all add: r_def)
  have eq: "m = q * d + r" by (simp add: q_def r_def)
  show ?thesis
  proof (cases "2 * r > d \<or> (2 * r = d \<and> odd q)")
    case True
    then have v: "rne_shift m k = q + 1"
      by (simp add: rne_shift_def Let_def d_def [symmetric] q_def [symmetric] r_def [symmetric])
    have diff: "(q + 1) * d - m = d - r" using eq by (simp add: algebra_simps)
    have a: "\<bar>d - r\<bar> = d - r" using r by simp
    have "2 * \<bar>d - r\<bar> \<le> d" unfolding a using True by auto
    moreover have "even (q + 1)" if "2 * \<bar>d - r\<bar> = d"
    proof -
      from that have "2 * r = d" unfolding a by presburger
      with True have "odd q" by auto
      then show ?thesis by simp
    qed
    ultimately show ?thesis unfolding v d_def [symmetric] diff by blast
  next
    case False
    then have v: "rne_shift m k = q"
      by (simp add: rne_shift_def Let_def d_def [symmetric] q_def [symmetric] r_def [symmetric])
    have diff: "q * d - m = - r" using eq by simp
    have a: "\<bar>- r\<bar> = r" using r by simp
    have "2 * \<bar>- r\<bar> \<le> d" unfolding a using False by auto
    moreover have "even q" if "2 * \<bar>- r\<bar> = d"
    proof -
      from that have "2 * r = d" unfolding a by presburger
      with False show ?thesis by auto
    qed
    ultimately show ?thesis unfolding v d_def [symmetric] diff by blast
  qed
qed

lemma py_round_nearest:
  assumes "py_round (Finite pm pe) = Inr ms"
  shows "(0 \<le> pe \<longrightarrow> ms = pm * 2 ^ nat pe) \<and>
         (pe < 0 \<longrightarrow>
            2 * \<bar>ms * 2 ^ nat (- pe) - pm\<bar> \<le> 2 ^ nat (- pe) \<and>
            (2 * \<bar>ms * 2 ^ nat (- pe) - pm\<bar> = 2 ^ nat (- pe) \<longrightarrow> even ms))"
proof (cases "0 \<le> pe")
  case True
  then show ?thesis using assms by simp
next
  case False
  then have "ms = rne_shift pm (nat (- pe))" using assms by simp
  then show ?thesis using False rne_shift_nearest [of pm "nat (- pe)"] by simp
qed

lemma bitlen_nonpos: "n \<le> 0 \<Longrightarrow> bitlen n = 0"
  by (subst bitlen.simps) simp

lemma bitlen_pos: "0 < n \<Longrightarrow> bitlen n = Suc (bitlen (n div 2))"
  by (subst bitlen.simps) simp

lemma bitlen_bound: "n < 2 ^ k \<Longrightarrow> bitlen n \<le> k"
proof (induction k arbitrary: n)
  case 0
  then show ?case by (simp add: bitlen_nonpos)
next
  case (Suc k)
  show ?case
  proof (cases "n \<le> 0")
    case True
    then show ?thesis by (simp add: bitlen_nonpos)
  next
    case False
    have "n div 2 < 2 ^ k" using Suc.prems by simp
    then have "bitlen (n div 2) \<le> k" by (rule Suc.IH)
    then show ?thesis using False by (simp add: bitlen_pos)
  qed
qed

lemma rne_shift_le: "0 \<le> m \<Longrightarrow> rne_shift m k \<le> m"
proof -
  assume m: "0 \<le> m"
  define d :: int where "d = 2 ^ k"
  define q where "q = m div d"
  define r where "r = m mod d"
  have d: "1 \<le> d" by (simp add: d_def)
  have q: "0 \<le> q" using m d by (simp add: q_def pos_imp_zdiv_nonneg_iff)
  have r: "0 \<le> r" "r < d" using d by (simp_all add: r_def)
  have eq: "m = q * d + r" by (simp add: q_def r_def)
  have "q * 1 \<le> q * d" using q d by (intro mult_left_mono) simp_all
  then have qd: "q \<le> q * d" by simp
  have up: "q + 1 \<le> m" if "d \<le> 2 * r"
  proof -
    from that d have "1 \<le> r" by linarith
    then show ?thesis using eq qd by linarith
  qed
  have "q \<le> m" using eq qd r by linarith
  then show ?thesis
    using up by (auto simp: rne_shift_def Let_def d_def [symmetric] q_def [symmetric]
        r_def [symmetric])
qed

lemma to_double_finite:
  assumes "0 \<le> m" and "m < 2 ^ 63" and "e \<le> 950"
  shows "float_finite (to_double m e)"
proof -
  define t where "t = max (- 1074) (e + int (bitlen \<bar>m\<bar>) - 53)"
  define m' where "m' = (if t \<le> e then m else rne_shift m (nat (t - e)))"
  define e' where "e' = (if t \<le> e then e else t)"
  have bl: "bitlen \<bar>m\<bar> \<le> 63" using assms by (simp add: bitlen_bound)
  have m'0: "0 \<le> m'" using assms(1) rne_shift_nonneg [OF assms(1)] by (simp add: m'_def)
  have "m' \<le> m" using rne_shift_le [OF assms(1)] by (simp add: m'_def)
  then have "m' < 2 ^ 63" using assms(2) by linarith
  then have bl': "bitlen \<bar>m'\<bar> \<le> 63" using m'0 by (simp add: bitlen_bound)
  have "e' \<le> 960" using assms(3) bl by (auto simp: e'_def t_def)
  then have "\<not> 1024 < int (bitlen \<bar>m'\<bar>) + e'" using bl' by linarith
  then show ?thesis
    by (simp add: to_double_def Let_def t_def [symmetric] m'_def [symmetric] e'_def [symmetric])
qed

lemma float_mul_1000_finite:
  assumes "0 \<le> m" and "m < 2 ^ 53" and "e \<le> 950"
  shows "float_finite (float_mul (Finite m e) (Finite 1000 0))"
proof -
  have "m * 1000 < 2 ^ 53 * 2 ^ 10" using assms by simp
  then have "m * 1000 < 2 ^ 63" by simp
  then show ?thesis using assms by (simp add: to_double_finite)
qed

lemma bitlen_upper: "n < 2 ^ bitlen n"
proof (induction n rule: bitlen.induct)
  case (1 n)
  show ?case
  proof (cases "n \<le> 0")
    case True
    then show ?thesis by (simp add: bitlen_nonpos)
  next
    case False
    then have "n div 2 < 2 ^ bitlen (n div 2)" by (rule "1.IH")
    then have "n < 2 * 2 ^ bitlen (n div 2)" by linarith
    then show ?thesis using False by (simp add: bitlen_pos)
  qed
qed

lemma bitlen_mult:
  assumes "0 \<le> a" and "0 \<le> b"
  shows "bitlen (a * b) \<le> bitlen a + bitlen b"
proof -
  have "a * b < 2 ^ bitlen a * 2 ^ bitlen b"
    using assms bitlen_upper [of a] bitlen_upper [of b]
    by (intro mult_strict_mono') simp_all
  then have "a * b < 2 ^ (bitlen a + bitlen b)" by (simp add: power_add)
  then show ?thesis by (rule bitlen_bound)
qed

lemma bitlen_shift: "0 \<le> a \<Longrightarrow> bitlen (a * 2 ^ k) \<le> bitlen a + k"
proof -
  assume a: "0 \<le> a"
  have "a * 2 ^ k < 2 ^ bitlen a * 2 ^ k"
    using bitlen_upper [of a] by simp
  then have "a * 2 ^ k < 2 ^ (bitlen a + k)" by (simp add: power_add)
  then show ?thesis by (rule bitlen_bound)
qed

lemma bitlen_add:
  assumes "bitlen a \<le> j" and "bitlen b \<le> j"
  shows "bitlen (a + b) \<le> Suc j"
proof -
  have "a < 2 ^ j"
    using bitlen_upper [of a] assms(1)
    by (meson less_le_trans one_le_numeral power_increasing)
  moreover have "b < 2 ^ j"
    using bitlen_upper [of b] assms(2)
    by (meson less_le_trans one_le_numeral power_increasing)
  ultimately have "a + b < 2 ^ Suc j" by simp
  then show ?thesis by (rule bitlen_bound)
qed

lemma bitlen_1000: "bitlen 1000 = 10"
  by code_simp

lemma int_div_less:
  fixes m d q :: int
  assumes "0 < d" and "m < q * d"
  shows "m div d < q"
proof (rule ccontr)
  assume "\<not> m div d < q"
  then have "q * d \<le> (m div d) * d"
    using assms(1) by (intro mult_right_mono) simp_all
  moreover have "m = (m div d) * d + m mod d" by simp
  moreover have "0 \<le> m mod d" using assms(1) by simp
  ultimately show False using assms(2) by linarith
qed

lemma rne_shift_upper:
  assumes "0 \<le> m"
  shows "rne_shift m k \<le> 2 ^ (bitlen m - k)"
proof -
  have q: "m div 2 ^ k < 2 ^ (bitlen m - k)"
  proof (cases "k \<le> bitlen m")
    case True
    have "m < 2 ^ (bitlen m - k) * 2 ^ k"
      using bitlen_upper [of m] True by (simp flip: power_add)
    then show ?thesis
      by (intro int_div_less) simp_all
  next
    case False
    then have "bitlen m \<le> k" by simp
    then have "(2::int) ^ bitlen m \<le> 2 ^ k" by (intro power_increasing) simp_all
    then have "m < 2 ^ k" using bitlen_upper [of m] by linarith
    then have "m div 2 ^ k = 0" using assms by simp
    then show ?thesis by simp
  qed
  have "rne_shift m k \<le> m div 2 ^ k + 1"
    by (simp add: rne_shift_def Let_def)
  with q show ?thesis by linarith
qed

lemma bitlen_rne_shift:
  assumes "0 \<le> m"
  shows "bitlen (rne_shift m k) \<le> Suc (bitlen m - k)"
proof -
  define P :: int where "P = 2 ^ (bitlen m - k)"
  have "0 < P" by (simp add: P_def)
  moreover have "rne_shift m k \<le> P"
    using rne_shift_upper [OF assms, of k] by (simp add: P_def)
  ultimately have "rne_shift m k < 2 * P" by linarith
  then have "rne_shift m k < 2 ^ Suc (bitlen m - k)" by (simp add: P_def)
  then show ?thesis by (rule bitlen_bound)
qed

lemma to_double_magnitude:
  assumes m: "0 \<le> m" and b: "int (bitlen m) + e \<le> B" and lo: "- 1074 \<le> B" and hi: "B \<le> 1023"
  shows "\<exists>m' e'. to_double m e = Finite m' e' \<and> 0 \<le> m' \<and> int (bitlen m') + e' \<le> B + 1"
proof -
  define t where "t = max (- 1074) (e + int (bitlen \<bar>m\<bar>) - 53)"
  define m' where "m' = (if t \<le> e then m else rne_shift m (nat (t - e)))"
  define e' where "e' = (if t \<le> e then e else t)"
  have abs: "\<bar>m\<bar> = m" using m by simp
  have m'0: "0 \<le> m'" using m rne_shift_nonneg [OF m] by (simp add: m'_def)
  have mag: "int (bitlen m') + e' \<le> B + 1"
  proof (cases "t \<le> e")
    case True
    then show ?thesis using b by (simp add: m'_def e'_def)
  next
    case False
    then have k: "0 < t - e" by simp
    have bl: "int (bitlen m') \<le> 1 + int (bitlen m - nat (t - e))"
      using bitlen_rne_shift [OF m, of "nat (t - e)"] False by (simp add: m'_def)
    show ?thesis
    proof (cases "nat (t - e) \<le> bitlen m")
      case True
      then have "int (bitlen m - nat (t - e)) = int (bitlen m) - (t - e)"
        using k by simp
      then show ?thesis using bl b False by (simp add: e'_def)
    next
      case False2: False
      then have "int (bitlen m) < t - e" by linarith
      then have "t = - 1074" unfolding t_def abs by linarith
      moreover have "int (bitlen m') \<le> 1" using bl False2 by simp
      ultimately show ?thesis using lo False by (simp add: e'_def)
    qed
  qed
  then have "\<not> 1024 < int (bitlen \<bar>m'\<bar>) + e'" using hi m'0 by simp
  then have "to_double m e = Finite m' e'"
    by (simp add: to_double_def Let_def t_def [symmetric] m'_def [symmetric] e'_def [symmetric])
  with m'0 mag show ?thesis by blast
qed

lemma float_mul_1000_magnitude:
  assumes "0 \<le> m" and "int (bitlen m) + e \<le> B" and "- 1084 \<le> B" and "B \<le> 1013"
  shows "\<exists>m' e'. float_mul (Finite m e) (Finite 1000 0) = Finite m' e' \<and> 0 \<le> m' \<and>
           int (bitlen m') + e' \<le> B + 11"
proof -
  have "bitlen (m * 1000) \<le> bitlen m + 10"
    using bitlen_mult [OF assms(1), of 1000] by (simp add: bitlen_1000)
  then have "int (bitlen (m * 1000)) + e \<le> B + 10" using assms(2) by linarith
  moreover have "0 \<le> m * 1000" using assms(1) by simp
  moreover have "- 1074 \<le> B + 10" "B + 10 \<le> 1023" using assms(3,4) by simp_all
  ultimately obtain m' e' where r: "to_double (m * 1000) e = Finite m' e'" "0 \<le> m'"
      "int (bitlen m') + e' \<le> B + 10 + 1"
    using to_double_magnitude [of "m * 1000" e "B + 10"] by blast
  from r(3) have "int (bitlen m') + e' \<le> B + 11" by linarith
  with r(1,2) show ?thesis by simp
qed

lemma float_add_magnitude:
  assumes "0 \<le> a" and "int (bitlen a) + e \<le> B" and "0 \<le> b" and "int (bitlen b) + f \<le> B"
    and "- 1075 \<le> B" and "B \<le> 1022"
  shows "\<exists>m' e'. float_add (Finite a e) (Finite b f) = Finite m' e' \<and> 0 \<le> m' \<and>
           int (bitlen m') + e' \<le> B + 2"
proof -
  define g where "g = min e f"
  define j where "j = nat (B - g)"
  have a: "bitlen (a * 2 ^ nat (e - g)) \<le> j"
  proof -
    have "int (bitlen (a * 2 ^ nat (e - g))) \<le> int (bitlen a) + (e - g)"
      using bitlen_shift [OF assms(1), of "nat (e - g)"] by (simp add: g_def)
    then show ?thesis using assms(2) by (simp add: j_def)
  qed
  have b: "bitlen (b * 2 ^ nat (f - g)) \<le> j"
  proof -
    have "int (bitlen (b * 2 ^ nat (f - g))) \<le> int (bitlen b) + (f - g)"
      using bitlen_shift [OF assms(3), of "nat (f - g)"] by (simp add: g_def)
    then show ?thesis using assms(4) by (simp add: j_def)
  qed
  have "bitlen (a * 2 ^ nat (e - g) + b * 2 ^ nat (f - g)) \<le> Suc j"
    using a b by (rule bitlen_add)
  moreover have "0 \<le> B - g \<or> (a = 0 \<and> b = 0)"
  proof (cases "0 \<le> B - g")
    case True then show ?thesis by simp
  next
    case False
    then have "int (bitlen a) + e < e \<or> int (bitlen b) + f < f"
      using assms(2,4) by (auto simp: g_def min_def split: if_splits)
    then show ?thesis by simp
  qed
  ultimately have mag: "int (bitlen (a * 2 ^ nat (e - g) + b * 2 ^ nat (f - g))) + g \<le> B + 1"
  proof -
    assume s: "bitlen (a * 2 ^ nat (e - g) + b * 2 ^ nat (f - g)) \<le> Suc j"
    assume "0 \<le> B - g \<or> (a = 0 \<and> b = 0)"
    then show ?thesis
    proof
      assume "0 \<le> B - g"
      then have "int (Suc j) = B - g + 1" by (simp add: j_def)
      then show ?thesis using s by linarith
    next
      assume "a = 0 \<and> b = 0"
      then show ?thesis using assms(2) by (simp add: bitlen_nonpos g_def min_def)
    qed
  qed
  have nn: "0 \<le> a * 2 ^ nat (e - g) + b * 2 ^ nat (f - g)"
    using assms(1,3) by simp
  have "- 1074 \<le> B + 1" "B + 1 \<le> 1023" using assms(5,6) by simp_all
  then obtain m' e' where r:
      "to_double (a * 2 ^ nat (e - g) + b * 2 ^ nat (f - g)) g = Finite m' e'" "0 \<le> m'"
      "int (bitlen m') + e' \<le> B + 1 + 1"
    using to_double_magnitude [OF nn mag] by blast
  from r(3) have "int (bitlen m') + e' \<le> B + 2" by linarith
  with r(1,2) show ?thesis by (simp add: Let_def g_def [symmetric])
qed

section \<open>The timestamp formatter: results\<close>

lemma timestamp_raises:
  "milliseconds_total seconds = Inl err \<Longrightarrow>
   to_srt_timestamp seconds = Inl err \<and> to_vtt_timestamp seconds = Inl err"
  by (simp add: to_srt_timestamp_def to_vtt_timestamp_def)

lemma milliseconds_total_returns:
  assumes "float_nonneg seconds" and "float_finite (float_mul seconds (Finite 1000 0))"
  shows "\<exists>ms. milliseconds_total seconds = Inr ms \<and> 0 \<le> ms"
proof -
  obtain ms where ms: "milliseconds_total seconds = Inr ms"
    using py_round_finite [OF assms(2)] by blast
  have "0 \<le> ms"
    using py_round_nonneg [OF float_mul_1000_nonneg [OF assms(1)] ms] .
  with ms show ?thesis by blast
qed

lemma milliseconds_total_nearest:
  assumes "float_nonneg seconds" and "float_finite (float_mul seconds (Finite 1000 0))"
  shows "\<exists>ms pm pe. float_mul seconds (Finite 1000 0) = Finite pm pe \<and>
           milliseconds_total seconds = Inr ms \<and> 0 \<le> ms \<and>
           (0 \<le> pe \<longrightarrow> ms = pm * 2 ^ nat pe) \<and>
           (pe < 0 \<longrightarrow>
              2 * \<bar>ms * 2 ^ nat (- pe) - pm\<bar> \<le> 2 ^ nat (- pe) \<and>
              (2 * \<bar>ms * 2 ^ nat (- pe) - pm\<bar> = 2 ^ nat (- pe) \<longrightarrow> even ms))"
proof -
  obtain pm pe where p: "float_mul seconds (Finite 1000 0) = Finite pm pe"
    using assms(2) by (cases "float_mul seconds (Finite 1000 0)") simp_all
  obtain ms where ms: "milliseconds_total seconds = Inr ms" "0 \<le> ms"
    using milliseconds_total_returns [OF assms] by blast
  from ms(1) have "py_round (Finite pm pe) = Inr ms" by (simp add: p)
  from py_round_nearest [OF this] p ms show ?thesis by blast
qed

lemma fields_recompose:
  fixes ms :: int
  shows "ms = 3600000 * (ms div 3600000) + 60000 * ((ms mod 3600000) div 60000)
          + 1000 * ((ms mod 60000) div 1000) + ms mod 1000"
proof -
  have a: "(ms mod 3600000) mod 60000 = ms mod 60000"
    by (rule mod_mod_cancel) simp
  have b: "(ms mod 60000) mod 1000 = ms mod 1000"
    by (rule mod_mod_cancel) simp
  have c: "ms = 3600000 * (ms div 3600000) + ms mod 3600000"
    by (simp only: mult_div_mod_eq)
  have d: "ms mod 3600000 = 60000 * ((ms mod 3600000) div 60000) + ms mod 60000"
    using mult_div_mod_eq [of 60000 "ms mod 3600000"] by (simp only: a)
  have e: "ms mod 60000 = 1000 * ((ms mod 60000) div 1000) + ms mod 1000"
    using mult_div_mod_eq [of 1000 "ms mod 60000"] by (simp only: b)
  from c d e show ?thesis by linarith
qed

lemma fields_range:
  fixes ms :: int
  shows "0 \<le> (ms mod 3600000) div 60000 \<and> (ms mod 3600000) div 60000 < 60 \<and>
    0 \<le> (ms mod 60000) div 1000 \<and> (ms mod 60000) div 1000 < 60 \<and>
    0 \<le> ms mod 1000 \<and> ms mod 1000 < 1000"
proof -
  have a: "0 \<le> ms mod 3600000" "ms mod 3600000 < 3600000" by simp_all
  have b: "0 \<le> ms mod 60000" "ms mod 60000 < 60000" by simp_all
  have c: "0 \<le> ms mod 1000" "ms mod 1000 < 1000" by simp_all
  have a1: "0 \<le> (ms mod 3600000) div 60000" using a(1) by (simp add: pos_imp_zdiv_nonneg_iff)
  have "(ms mod 3600000) div 60000 \<le> 3599999 div 60000"
    using a(2) by (intro zdiv_mono1) simp_all
  then have a2: "(ms mod 3600000) div 60000 < 60" by simp
  have b1: "0 \<le> (ms mod 60000) div 1000" using b(1) by (simp add: pos_imp_zdiv_nonneg_iff)
  have "(ms mod 60000) div 1000 \<le> 59999 div 1000"
    using b(2) by (intro zdiv_mono1) simp_all
  then have b2: "(ms mod 60000) div 1000 < 60" by simp
  from a1 a2 b1 b2 c show ?thesis by blast
qed

lemma timestamp_fields:
  assumes "milliseconds_total seconds = Inr ms" and "0 \<le> ms"
  shows "to_srt_timestamp seconds =
           Inr (zero_pad 2 (ms div 3600000) @ '':'' @ zero_pad 2 ((ms mod 3600000) div 60000)
                @ '':'' @ zero_pad 2 ((ms mod 60000) div 1000) @ '','' @ zero_pad 3 (ms mod 1000))"
    and "to_vtt_timestamp seconds =
           Inr (zero_pad 2 (ms div 3600000) @ '':'' @ zero_pad 2 ((ms mod 3600000) div 60000)
                @ '':'' @ zero_pad 2 ((ms mod 60000) div 1000) @ ''.'' @ zero_pad 3 (ms mod 1000))"
proof -
  have "0 \<le> ms div 3600000" using assms(2) by (simp add: pos_imp_zdiv_nonneg_iff)
  then have f1: "format_d 2 (ms div 3600000) = zero_pad 2 (ms div 3600000)"
    by (rule format_d_nonneg)
  have f2: "format_d 2 ((ms mod 3600000) div 60000) = zero_pad 2 ((ms mod 3600000) div 60000)"
    using fields_range [of ms] by (intro format_d_nonneg) blast
  have f3: "format_d 2 ((ms mod 60000) div 1000) = zero_pad 2 ((ms mod 60000) div 1000)"
    using fields_range [of ms] by (intro format_d_nonneg) blast
  have f4: "format_d 3 (ms mod 1000) = zero_pad 3 (ms mod 1000)"
    using fields_range [of ms] by (intro format_d_nonneg) blast
  show "to_srt_timestamp seconds =
           Inr (zero_pad 2 (ms div 3600000) @ '':'' @ zero_pad 2 ((ms mod 3600000) div 60000)
                @ '':'' @ zero_pad 2 ((ms mod 60000) div 1000) @ '','' @ zero_pad 3 (ms mod 1000))"
    unfolding to_srt_timestamp_def assms(1) Let_def sum.case f1 f2 f3 f4 by (rule refl)
  show "to_vtt_timestamp seconds =
           Inr (zero_pad 2 (ms div 3600000) @ '':'' @ zero_pad 2 ((ms mod 3600000) div 60000)
                @ '':'' @ zero_pad 2 ((ms mod 60000) div 1000) @ ''.'' @ zero_pad 3 (ms mod 1000))"
    unfolding to_vtt_timestamp_def assms(1) Let_def sum.case f1 f2 f3 f4 by (rule refl)
qed

lemma hours_two_digits:
  fixes ms :: int
  assumes "0 \<le> ms"
  shows "ms div 3600000 < 100 \<longleftrightarrow> ms < 360000000"
proof
  assume h: "ms div 3600000 < 100"
  show "ms < 360000000"
  proof (rule ccontr)
    assume "\<not> ms < 360000000"
    then have "360000000 div 3600000 \<le> ms div 3600000"
      by (intro zdiv_mono1) simp_all
    with h show False by simp
  qed
next
  assume "ms < 360000000"
  then have "ms div 3600000 \<le> 359999999 div 3600000"
    by (intro zdiv_mono1) simp_all
  then show "ms div 3600000 < 100" by simp
qed

text \<open>
  Claim C7. The formatter first computes \<open>round(seconds * 1000)\<close>: when that raises (the
  product is an infinity or NaN), the formatter raises the same exception. For a seconds
  input from 0 on with a finite product \<open>pm * 2 ^ pe\<close> it returns: the rounding gives the
  integer \<open>ms\<close> from 0 on that is nearest to the product (at most one half away from it, and
  even when exactly one half away), and the text is the hours \<open>ms div 3600000\<close>, the minutes
  \<open>(ms mod 3600000) div 60000\<close>, the seconds \<open>(ms mod 60000) div 1000\<close> and the milliseconds
  \<open>ms mod 1000\<close>, padded with zeros to 2, 2, 2 and 3 digits, with \<open>:\<close> between the first
  three and \<open>,\<close> (SRT) or \<open>.\<close> (VTT) before the last. The four fields add up to \<open>ms\<close>, the
  minutes and seconds are below 60 and the milliseconds below 1000, so everything from 3600 s
  on goes to the hours. \<open>0.0\<close> gives \<open>00:00:00,000\<close> and \<open>00:00:00.000\<close>, \<open>3661.5\<close> gives
  \<open>01:01:01,500\<close>; off the whole milliseconds, \<open>0.0006\<close> gives \<open>00:00:00,001\<close>, \<open>0.0005\<close>
  gives \<open>00:00:00,000\<close> and \<open>0.0015\<close> gives \<open>00:00:00,002\<close> (their products are the floats
  0.5 and 1.5, halfway), \<open>1.0005\<close> gives \<open>00:00:01,000\<close> and \<open>2.0005\<close> gives
  \<open>00:00:02,001\<close>.
\<close>

theorem timestamp_decomposition:
  "(milliseconds_total seconds = Inl err \<longrightarrow>
      to_srt_timestamp seconds = Inl err \<and> to_vtt_timestamp seconds = Inl err) \<and>
   (float_nonneg seconds \<and> float_finite (float_mul seconds (Finite 1000 0)) \<longrightarrow>
      (\<exists>ms pm pe.
         float_mul seconds (Finite 1000 0) = Finite pm pe \<and>
         milliseconds_total seconds = Inr ms \<and> 0 \<le> ms \<and>
         (0 \<le> pe \<longrightarrow> ms = pm * 2 ^ nat pe) \<and>
         (pe < 0 \<longrightarrow>
            2 * \<bar>ms * 2 ^ nat (- pe) - pm\<bar> \<le> 2 ^ nat (- pe) \<and>
            (2 * \<bar>ms * 2 ^ nat (- pe) - pm\<bar> = 2 ^ nat (- pe) \<longrightarrow> even ms)) \<and>
         to_srt_timestamp seconds =
           Inr (zero_pad 2 (ms div 3600000) @ '':'' @ zero_pad 2 ((ms mod 3600000) div 60000)
                 @ '':'' @ zero_pad 2 ((ms mod 60000) div 1000) @ '','' @ zero_pad 3 (ms mod 1000)) \<and>
         to_vtt_timestamp seconds =
           Inr (zero_pad 2 (ms div 3600000) @ '':'' @ zero_pad 2 ((ms mod 3600000) div 60000)
                 @ '':'' @ zero_pad 2 ((ms mod 60000) div 1000) @ ''.'' @ zero_pad 3 (ms mod 1000)) \<and>
         ms = 3600000 * (ms div 3600000) + 60000 * ((ms mod 3600000) div 60000)
                + 1000 * ((ms mod 60000) div 1000) + ms mod 1000 \<and>
         0 \<le> (ms mod 3600000) div 60000 \<and> (ms mod 3600000) div 60000 < 60 \<and>
         0 \<le> (ms mod 60000) div 1000 \<and> (ms mod 60000) div 1000 < 60 \<and>
         0 \<le> ms mod 1000 \<and> ms mod 1000 < 1000 \<and>
         (3600000 \<le> ms \<longleftrightarrow> 1 \<le> ms div 3600000))) \<and>
   to_srt_timestamp (Finite 0 0) = Inr ''00:00:00,000'' \<and>
   to_vtt_timestamp (Finite 0 0) = Inr ''00:00:00.000'' \<and>
   to_srt_timestamp (Finite 7323 (- 1)) = Inr ''01:01:01,500'' \<and>
   to_srt_timestamp (Finite 5534023222112865 (- 63)) = Inr ''00:00:00,001'' \<and>
   to_srt_timestamp (Finite 1152921504606847 (- 61)) = Inr ''00:00:00,000'' \<and>
   to_srt_timestamp (Finite 3458764513820541 (- 61)) = Inr ''00:00:00,002'' \<and>
   to_srt_timestamp (Finite 4505851427184181 (- 52)) = Inr ''00:00:01,000'' \<and>
   to_srt_timestamp (Finite 4504725527277339 (- 51)) = Inr ''00:00:02,001''"
proof -
  have a: "milliseconds_total seconds = Inl err \<longrightarrow>
      to_srt_timestamp seconds = Inl err \<and> to_vtt_timestamp seconds = Inl err"
    using timestamp_raises by blast
  have b: "\<exists>ms pm pe.
         float_mul seconds (Finite 1000 0) = Finite pm pe \<and>
         milliseconds_total seconds = Inr ms \<and> 0 \<le> ms \<and>
         (0 \<le> pe \<longrightarrow> ms = pm * 2 ^ nat pe) \<and>
         (pe < 0 \<longrightarrow>
            2 * \<bar>ms * 2 ^ nat (- pe) - pm\<bar> \<le> 2 ^ nat (- pe) \<and>
            (2 * \<bar>ms * 2 ^ nat (- pe) - pm\<bar> = 2 ^ nat (- pe) \<longrightarrow> even ms)) \<and>
         to_srt_timestamp seconds =
           Inr (zero_pad 2 (ms div 3600000) @ '':'' @ zero_pad 2 ((ms mod 3600000) div 60000)
                 @ '':'' @ zero_pad 2 ((ms mod 60000) div 1000) @ '','' @ zero_pad 3 (ms mod 1000)) \<and>
         to_vtt_timestamp seconds =
           Inr (zero_pad 2 (ms div 3600000) @ '':'' @ zero_pad 2 ((ms mod 3600000) div 60000)
                 @ '':'' @ zero_pad 2 ((ms mod 60000) div 1000) @ ''.'' @ zero_pad 3 (ms mod 1000)) \<and>
         ms = 3600000 * (ms div 3600000) + 60000 * ((ms mod 3600000) div 60000)
                + 1000 * ((ms mod 60000) div 1000) + ms mod 1000 \<and>
         0 \<le> (ms mod 3600000) div 60000 \<and> (ms mod 3600000) div 60000 < 60 \<and>
         0 \<le> (ms mod 60000) div 1000 \<and> (ms mod 60000) div 1000 < 60 \<and>
         0 \<le> ms mod 1000 \<and> ms mod 1000 < 1000 \<and>
         (3600000 \<le> ms \<longleftrightarrow> 1 \<le> ms div 3600000)"
    if nn: "float_nonneg seconds" and fin: "float_finite (float_mul seconds (Finite 1000 0))"
  proof -
    obtain ms pm pe where p: "float_mul seconds (Finite 1000 0) = Finite pm pe"
      and ms: "milliseconds_total seconds = Inr ms" "0 \<le> ms"
      and near: "0 \<le> pe \<longrightarrow> ms = pm * 2 ^ nat pe"
        "pe < 0 \<longrightarrow>
            2 * \<bar>ms * 2 ^ nat (- pe) - pm\<bar> \<le> 2 ^ nat (- pe) \<and>
            (2 * \<bar>ms * 2 ^ nat (- pe) - pm\<bar> = 2 ^ nat (- pe) \<longrightarrow> even ms)"
      using milliseconds_total_nearest [OF nn fin] by blast
    have "0 < ms div 3600000 \<longleftrightarrow> 3600000 \<le> ms"
      by (rule pos_imp_zdiv_pos_iff) simp
    moreover have "0 < ms div 3600000 \<longleftrightarrow> 1 \<le> ms div 3600000"
      by linarith
    ultimately have roll: "3600000 \<le> ms \<longleftrightarrow> 1 \<le> ms div 3600000"
      by (simp only:)
    show ?thesis
      using p ms near timestamp_fields [OF ms] fields_recompose [of ms] fields_range [of ms] roll
      by blast
  qed
  have x0: "to_srt_timestamp (Finite 0 0) = Inr ''00:00:00,000''"
    by code_simp
  have x1: "to_vtt_timestamp (Finite 0 0) = Inr ''00:00:00.000''"
    by code_simp
  have x2: "to_srt_timestamp (Finite 7323 (- 1)) = Inr ''01:01:01,500''"
    by code_simp
  have x3: "to_srt_timestamp (Finite 5534023222112865 (- 63)) = Inr ''00:00:00,001''"
    by code_simp
  have x4: "to_srt_timestamp (Finite 1152921504606847 (- 61)) = Inr ''00:00:00,000''"
    by code_simp
  have x5: "to_srt_timestamp (Finite 3458764513820541 (- 61)) = Inr ''00:00:00,002''"
    by code_simp
  have x6: "to_srt_timestamp (Finite 4505851427184181 (- 52)) = Inr ''00:00:01,000''"
    by code_simp
  have x7: "to_srt_timestamp (Finite 4504725527277339 (- 51)) = Inr ''00:00:02,001''"
    by code_simp
  from a b x0 x1 x2 x3 x4 x5 x6 x7 show ?thesis by blast
qed

theorem timestamp_decomposition_witness:
  "float_nonneg (Finite 5534023222112865 (- 63)) \<and>
   float_mul (Finite 5534023222112865 (- 63)) (Finite 1000 0) = Finite 5404319552844595 (- 53) \<and>
   milliseconds_total (Finite 5534023222112865 (- 63)) = Inr 1 \<and>
   2 * \<bar>1 * 2 ^ nat (- (- 53)) - 5404319552844595\<bar> \<le> (2 :: int) ^ nat (- (- 53)) \<and>
   to_srt_timestamp (Finite 5534023222112865 (- 63)) = Inr ''00:00:00,001'' \<and>
   float_nonneg (Finite 7323 (- 1)) \<and>
   float_finite (float_mul (Finite 7323 (- 1)) (Finite 1000 0)) \<and>
   milliseconds_total (Finite 7323 (- 1)) = Inr 3661500 \<and>
   to_srt_timestamp (Finite 7323 (- 1)) = Inr ''01:01:01,500''"
proof -
  let ?s = "Finite 5534023222112865 (- 63)"
  have nn: "float_nonneg ?s" by simp
  have p: "float_mul ?s (Finite 1000 0) = Finite 5404319552844595 (- 53)" by code_simp
  have ms: "milliseconds_total ?s = Inr 1" by code_simp
  have fin: "float_finite (float_mul ?s (Finite 1000 0))" by (simp only: p float_finite.simps)
  obtain ms' pm pe where h: "float_mul ?s (Finite 1000 0) = Finite pm pe"
      "milliseconds_total ?s = Inr ms'"
      "pe < 0 \<longrightarrow> 2 * \<bar>ms' * 2 ^ nat (- pe) - pm\<bar> \<le> 2 ^ nat (- pe) \<and>
         (2 * \<bar>ms' * 2 ^ nat (- pe) - pm\<bar> = 2 ^ nat (- pe) \<longrightarrow> even ms')"
    using timestamp_decomposition [of ?s] nn fin by blast
  from h(1) have pm: "pm = 5404319552844595" "pe = - 53" by (simp_all only: p pyfloat.inject)
  from h(2) have m1: "ms' = 1" by (simp only: ms sum.inject)
  have near: "2 * \<bar>1 * 2 ^ nat (- (- 53)) - 5404319552844595\<bar> \<le> (2 :: int) ^ nat (- (- 53))"
    using h(3) unfolding pm m1 by simp
  have srt: "to_srt_timestamp ?s = Inr ''00:00:00,001''"
    using timestamp_decomposition [of ?s] by blast
  have nn': "float_nonneg (Finite 7323 (- 1))" by simp
  have fin': "float_finite (float_mul (Finite 7323 (- 1)) (Finite 1000 0))" by code_simp
  have ms2: "milliseconds_total (Finite 7323 (- 1)) = Inr 3661500" by code_simp
  have srt': "to_srt_timestamp (Finite 7323 (- 1)) = Inr ''01:01:01,500''"
    using timestamp_decomposition [of "Finite 7323 (- 1)"] by blast
  from nn p ms near srt nn' fin' ms2 srt' show ?thesis by blast
qed

text \<open>
  Claim C8. The two formatters raise the same exceptions on the same inputs, and where the SRT
  formatter returns a text, it is \<open>p , q\<close> and the VTT text is \<open>p . q\<close> for the same \<open>p\<close> and
  the same three digits \<open>q\<close>, the milliseconds field: the two texts differ in that one
  character only. For a seconds input from 0 on with a finite product both return.
\<close>

theorem srt_vtt_separator:
  "(to_srt_timestamp seconds = Inl err \<longleftrightarrow> to_vtt_timestamp seconds = Inl err) \<and>
   (to_srt_timestamp seconds = Inr a \<longrightarrow>
      (\<exists>p q. a = p @ '','' @ q \<and> to_vtt_timestamp seconds = Inr (p @ ''.'' @ q) \<and>
             length q = 3 \<and> list_all isdigit q)) \<and>
   (float_nonneg seconds \<and> float_finite (float_mul seconds (Finite 1000 0)) \<longrightarrow>
      (\<exists>a. to_srt_timestamp seconds = Inr a))"
proof -
  have a: "to_srt_timestamp seconds = Inl err \<longleftrightarrow> to_vtt_timestamp seconds = Inl err"
    by (simp add: to_srt_timestamp_def to_vtt_timestamp_def Let_def split: sum.splits)
  have b: "\<exists>p q. a = p @ '','' @ q \<and> to_vtt_timestamp seconds = Inr (p @ ''.'' @ q) \<and>
             length q = 3 \<and> list_all isdigit q"
    if r: "to_srt_timestamp seconds = Inr a"
  proof -
    obtain ms where ms: "milliseconds_total seconds = Inr ms"
      using r by (cases "milliseconds_total seconds") (simp_all add: to_srt_timestamp_def)
    define p where "p = format_d 2 (ms div 3600000) @ '':''
        @ format_d 2 ((ms mod 3600000) div 60000) @ '':'' @ format_d 2 ((ms mod 60000) div 1000)"
    define q where "q = format_d 3 (ms mod 1000)"
    have q: "q = zero_pad 3 (ms mod 1000)"
      unfolding q_def by (rule format_d_nonneg) simp
    have "a = p @ '','' @ q"
      using r by (simp add: to_srt_timestamp_def ms Let_def p_def q_def)
    moreover have "to_vtt_timestamp seconds = Inr (p @ ''.'' @ q)"
      by (simp add: to_vtt_timestamp_def ms Let_def p_def q_def)
    moreover have "length q = 3"
      unfolding q by (rule length_zero_pad_3) simp_all
    moreover have "list_all isdigit q"
      unfolding q by (rule isdigit_zero_pad) simp
    ultimately show ?thesis by blast
  qed
  have c: "\<exists>a. to_srt_timestamp seconds = Inr a"
    if nn: "float_nonneg seconds" and fin: "float_finite (float_mul seconds (Finite 1000 0))"
  proof -
    obtain ms where ms: "milliseconds_total seconds = Inr ms" "0 \<le> ms"
      using milliseconds_total_returns [OF nn fin] by blast
    show ?thesis using timestamp_fields(1) [OF ms] by blast
  qed
  from a b c show ?thesis by blast
qed

theorem srt_vtt_separator_witness:
  "to_srt_timestamp (Finite 7323 (- 1)) = Inr (''01:01:01'' @ '','' @ ''500'') \<and>
   to_vtt_timestamp (Finite 7323 (- 1)) = Inr (''01:01:01'' @ ''.'' @ ''500'') \<and>
   (\<exists>p q. ''01:01:01,500'' = p @ '','' @ q \<and>
          to_vtt_timestamp (Finite 7323 (- 1)) = Inr (p @ ''.'' @ q) \<and> length q = 3 \<and>
          list_all isdigit q)"
proof -
  have s: "to_srt_timestamp (Finite 7323 (- 1)) = Inr ''01:01:01,500''" by code_simp
  have v: "to_vtt_timestamp (Finite 7323 (- 1)) = Inr ''01:01:01.500''" by code_simp
  show ?thesis
    using srt_vtt_separator [of "Finite 7323 (- 1)" _ "''01:01:01,500''"] s v by simp
qed

text \<open>
  Claim C9, as amended. For a seconds input from 0 on with a finite product, both formatters
  return the fields \<open>h:m:s\<close> and \<open>ml\<close>, all of decimal digits, with exactly 2 digits of
  minutes, 2 of seconds and 3 of milliseconds, and at least 2 digits of hours: exactly 2, and
  12 characters in all, when the rounded time is below 100 hours (360000000 ms), and more
  from there on, since the format gives a least width and cuts no digit off.
\<close>

theorem timestamp_width:
  assumes "float_nonneg seconds" and "float_finite (float_mul seconds (Finite 1000 0))"
  shows "\<exists>ms h m s ml.
           milliseconds_total seconds = Inr ms \<and> 0 \<le> ms \<and>
           to_srt_timestamp seconds = Inr (h @ '':'' @ m @ '':'' @ s @ '','' @ ml) \<and>
           to_vtt_timestamp seconds = Inr (h @ '':'' @ m @ '':'' @ s @ ''.'' @ ml) \<and>
           list_all isdigit h \<and> list_all isdigit m \<and> list_all isdigit s \<and>
           list_all isdigit ml \<and>
           length m = 2 \<and> length s = 2 \<and> length ml = 3 \<and> 2 \<le> length h \<and>
           (length h = 2 \<longleftrightarrow> ms < 360000000) \<and>
           (length (h @ '':'' @ m @ '':'' @ s @ '','' @ ml) = 12 \<longleftrightarrow> ms < 360000000)"
proof -
  obtain ms where ms: "milliseconds_total seconds = Inr ms" "0 \<le> ms"
    using milliseconds_total_returns [OF assms] by blast
  define h where "h = zero_pad 2 (ms div 3600000)"
  define m where "m = zero_pad 2 ((ms mod 3600000) div 60000)"
  define s where "s = zero_pad 2 ((ms mod 60000) div 1000)"
  define ml where "ml = zero_pad 3 (ms mod 1000)"
  have h0: "0 \<le> ms div 3600000" using ms(2) by (simp add: pos_imp_zdiv_nonneg_iff)
  note r = fields_range [of ms]
  have rm: "0 \<le> (ms mod 3600000) div 60000" "(ms mod 3600000) div 60000 < 100"
    using r by linarith+
  have rs: "0 \<le> (ms mod 60000) div 1000" "(ms mod 60000) div 1000 < 100"
    using r by linarith+
  have rml: "0 \<le> ms mod 1000" "ms mod 1000 < 1000"
    using r by linarith+
  have srt: "to_srt_timestamp seconds = Inr (h @ '':'' @ m @ '':'' @ s @ '','' @ ml)"
    unfolding h_def m_def s_def ml_def by (rule timestamp_fields(1) [OF ms])
  have vtt: "to_vtt_timestamp seconds = Inr (h @ '':'' @ m @ '':'' @ s @ ''.'' @ ml)"
    unfolding h_def m_def s_def ml_def by (rule timestamp_fields(2) [OF ms])
  have dig: "list_all isdigit h" "list_all isdigit m" "list_all isdigit s" "list_all isdigit ml"
    using h0 rm(1) rs(1) rml(1) by (simp_all add: h_def m_def s_def ml_def isdigit_zero_pad)
  have lm: "length m = 2" unfolding m_def using rm by (rule length_zero_pad_2)
  have ls: "length s = 2" unfolding s_def using rs by (rule length_zero_pad_2)
  have lml: "length ml = 3" unfolding ml_def using rml by (rule length_zero_pad_3)
  have lh: "2 \<le> length h" unfolding h_def by (rule length_zero_pad_2_ge)
  have lh2: "length h = 2 \<longleftrightarrow> ms < 360000000"
    unfolding h_def using length_zero_pad_2_iff [OF h0] hours_two_digits [OF ms(2)] by simp
  have all: "length (h @ '':'' @ m @ '':'' @ s @ '','' @ ml) = 12 \<longleftrightarrow> ms < 360000000"
    using lm ls lml lh2 by simp
  from ms srt vtt dig lm ls lml lh lh2 all show ?thesis by blast
qed

theorem timestamp_width_witness:
  "float_nonneg (Finite 7323 (- 1)) \<and>
   float_finite (float_mul (Finite 7323 (- 1)) (Finite 1000 0)) \<and>
   milliseconds_total (Finite 7323 (- 1)) = Inr 3661500 \<and>
   to_srt_timestamp (Finite 7323 (- 1)) = Inr ''01:01:01,500'' \<and>
   length ''01:01:01,500'' = 12 \<and>
   (\<exists>ms h m s ml. milliseconds_total (Finite 7323 (- 1)) = Inr ms \<and>
      to_srt_timestamp (Finite 7323 (- 1)) = Inr (h @ '':'' @ m @ '':'' @ s @ '','' @ ml) \<and>
      length m = 2 \<and> length s = 2 \<and> length ml = 3 \<and> 2 \<le> length h)"
proof -
  have nn: "float_nonneg (Finite 7323 (- 1))" by simp
  have fin: "float_finite (float_mul (Finite 7323 (- 1)) (Finite 1000 0))" by code_simp
  have ms: "milliseconds_total (Finite 7323 (- 1)) = Inr 3661500" by code_simp
  have s: "to_srt_timestamp (Finite 7323 (- 1)) = Inr ''01:01:01,500''" by code_simp
  have "\<exists>ms h m s ml. milliseconds_total (Finite 7323 (- 1)) = Inr ms \<and>
      to_srt_timestamp (Finite 7323 (- 1)) = Inr (h @ '':'' @ m @ '':'' @ s @ '','' @ ml) \<and>
      length m = 2 \<and> length s = 2 \<and> length ml = 3 \<and> 2 \<le> length h"
    using timestamp_width [OF nn fin] by blast
  with nn fin ms s show ?thesis by simp
qed

theorem timestamp_hundred_hours_counterexample:
  "float_nonneg (Finite 360000 0) \<and>
   to_srt_timestamp (Finite 360000 0) = Inr ''100:00:00,000'' \<and>
   to_vtt_timestamp (Finite 360000 0) = Inr ''100:00:00.000'' \<and>
   length ''100:00:00,000'' = 13"
  by code_simp

section \<open>The caption serializers: results\<close>

lemma srt_loop_cues:
  assumes "\<forall>s \<in> set xs. to_srt_timestamp (start s) = Inr (st s) \<and>
             to_srt_timestamp (float_add (start s) (duration s)) = Inr (en s)"
  shows "srt_loop (int n) xs lines =
           Inr (lines @ concat (map (\<lambda>(i, s). [str_int (int i), st s @ '' --> '' @ en s,
                                                snippet_text s, []]) (enumerate n xs)))"
  using assms
proof (induction xs arbitrary: n lines)
  case Nil
  show ?case by simp
next
  case (Cons x xs)
  have step: "srt_loop (int n) (x # xs) lines =
        srt_loop (int (Suc n)) xs
          (lines @ [str_int (int n), st x @ '' --> '' @ en x, snippet_text x, []])"
    using Cons.prems by (simp add: add.commute)
  have rest: "\<forall>s \<in> set xs. to_srt_timestamp (start s) = Inr (st s) \<and>
             to_srt_timestamp (float_add (start s) (duration s)) = Inr (en s)"
    using Cons.prems by simp
  show ?case
    unfolding step Cons.IH [OF rest] by simp
qed

lemma vtt_loop_cues:
  assumes "\<forall>s \<in> set xs. to_vtt_timestamp (start s) = Inr (st s) \<and>
             to_vtt_timestamp (float_add (start s) (duration s)) = Inr (en s)"
  shows "vtt_loop xs lines =
           Inr (lines @ concat (map (\<lambda>s. [st s @ '' --> '' @ en s, snippet_text s, []]) xs))"
  using assms
proof (induction xs arbitrary: lines)
  case Nil
  show ?case by simp
next
  case (Cons x xs)
  have step: "vtt_loop (x # xs) lines =
        vtt_loop xs (lines @ [st x @ '' --> '' @ en x, snippet_text x, []])"
    using Cons.prems by simp
  have rest: "\<forall>s \<in> set xs. to_vtt_timestamp (start s) = Inr (st s) \<and>
             to_vtt_timestamp (float_add (start s) (duration s)) = Inr (en s)"
    using Cons.prems by simp
  show ?case
    unfolding step Cons.IH [OF rest] by simp
qed

lemma rstrip_newline_end:
  "\<exists>body. rstrip s @ ''\<newline>'' = body @ ''\<newline>'' \<and> (body = [] \<or> \<not> isspace (last body))"
  using rstrip_last [of s] by blast

lemma srt_loop_raises_start:
  "to_srt_timestamp (start x) = Inl err \<Longrightarrow> srt_loop idx (x # xs) lines = Inl err"
  by simp



text \<open>
  Claim C6. When the timestamps of the snippets format, the VTT text is made of the line
  \<open>WEBVTT\<close> and an empty line, then for each snippet \<open>s\<close> in order the lines \<open>st s --> en s\<close>,
  the text of \<open>s\<close> and an empty line, joined by newlines; the trailing whitespace of the whole
  is removed and one newline is appended. The one snippet \<open>hi\<close> at 1.0 s for 2.0 s gives
  \<open>"WEBVTT\n\n00:00:01.000 --> 00:00:03.000\nhi\n"\<close>.
\<close>

theorem format_vtt_cues:
  assumes "\<forall>s \<in> set xs. to_vtt_timestamp (start s) = Inr (st s) \<and>
             to_vtt_timestamp (float_add (start s) (duration s)) = Inr (en s)"
  shows "format_vtt xs =
           Inr (rstrip (join ''\<newline>''
                  ([''WEBVTT'', []] @
                   concat (map (\<lambda>s. [st s @ '' --> '' @ en s, snippet_text s, []]) xs)))
                @ ''\<newline>'') \<and>
         (\<exists>body. format_vtt xs = Inr (body @ ''\<newline>'') \<and>
                  (body = [] \<or> \<not> isspace (last body))) \<and>
         format_vtt [\<lparr>snippet_text = ''hi'', start = Finite 1 0, duration = Finite 2 0\<rparr>] =
           Inr ''WEBVTT\<newline>\<newline>00:00:01.000 --> 00:00:03.000\<newline>hi\<newline>''"
proof -
  have a: "format_vtt xs =
           Inr (rstrip (join ''\<newline>''
                  ([''WEBVTT'', []] @
                   concat (map (\<lambda>s. [st s @ '' --> '' @ en s, snippet_text s, []]) xs)))
                @ ''\<newline>'')"
    by (simp add: format_vtt_def vtt_loop_cues [OF assms])
  have b: "\<exists>body. format_vtt xs = Inr (body @ ''\<newline>'') \<and>
                  (body = [] \<or> \<not> isspace (last body))"
    unfolding a using rstrip_newline_end by simp
  have c: "format_vtt [\<lparr>snippet_text = ''hi'', start = Finite 1 0, duration = Finite 2 0\<rparr>] =
           Inr ''WEBVTT\<newline>\<newline>00:00:01.000 --> 00:00:03.000\<newline>hi\<newline>''"
    by code_simp
  from a b c show ?thesis by blast
qed

theorem format_vtt_cues_witness:
  "to_vtt_timestamp (Finite 1 0) = Inr ''00:00:01.000'' \<and>
   to_vtt_timestamp (float_add (Finite 1 0) (Finite 2 0)) = Inr ''00:00:03.000'' \<and>
   format_vtt [\<lparr>snippet_text = ''hi  '', start = Finite 1 0, duration = Finite 2 0\<rparr>] =
     Inr (rstrip (join ''\<newline>''
            [''WEBVTT'', [], ''00:00:01.000 --> 00:00:03.000'', ''hi  '', []])
          @ ''\<newline>'')"
proof -
  let ?x = "\<lparr>snippet_text = ''hi  '', start = Finite 1 0, duration = Finite 2 0\<rparr>"
  have t1: "to_vtt_timestamp (Finite 1 0) = Inr ''00:00:01.000''" by code_simp
  have t2: "to_vtt_timestamp (float_add (Finite 1 0) (Finite 2 0)) = Inr ''00:00:03.000''"
    by code_simp
  have h: "\<forall>s \<in> set [?x]. to_vtt_timestamp (start s) = Inr ((\<lambda>s. ''00:00:01.000'') s) \<and>
             to_vtt_timestamp (float_add (start s) (duration s)) = Inr ((\<lambda>s. ''00:00:03.000'') s)"
    using t1 t2 by simp
  show ?thesis
    using format_vtt_cues [OF h] t1 t2 by simp
qed

text \<open>
  Claim C10. For no snippet at all the VTT text is \<open>"WEBVTT\n"\<close>: the header stays, the
  empty line after it is removed with the trailing whitespace. The SRT text for no snippet is
  the newline alone.
\<close>

theorem format_vtt_empty:
  "format_vtt [] = Inr ''WEBVTT\<newline>'' \<and> format_srt [] = Inr ''\<newline>''"
  by code_simp

theorem format_vtt_empty_witness:
  "format_vtt [] = Inr ''WEBVTT\<newline>'' \<and> format_vtt [] \<noteq> format_srt []"
  using format_vtt_empty by simp

section \<open>The formatters return on the times of a video\<close>

lemma timestamps_return_magnitude:
  assumes "0 \<le> m" and "int (bitlen m) + e \<le> 1013"
  shows "\<exists>s v. to_srt_timestamp (Finite m e) = Inr s \<and> to_vtt_timestamp (Finite m e) = Inr v"
proof -
  obtain m' e' where "float_mul (Finite m e) (Finite 1000 0) = Finite m' e'"
    using float_mul_1000_magnitude [OF assms, simplified] by simp blast
  then have "float_finite (float_mul (Finite m e) (Finite 1000 0))" by simp
  moreover have "float_nonneg (Finite m e)" using assms(1) by simp
  ultimately obtain ms where ms: "milliseconds_total (Finite m e) = Inr ms" "0 \<le> ms"
    using milliseconds_total_returns by blast
  show ?thesis using timestamp_fields [OF ms] by blast
qed

lemma timestamps_return:
  assumes "float_in_range x"
  shows "\<exists>s v. to_srt_timestamp x = Inr s \<and> to_vtt_timestamp x = Inr v"
proof (cases x)
  case (Finite m e)
  then have "0 \<le> m" "int (bitlen m) + e \<le> 1013" using assms by simp_all
  then show ?thesis unfolding Finite by (rule timestamps_return_magnitude)
qed (use assms in simp_all)

lemma end_timestamps_return:
  assumes "float_in_range x" and "float_in_range y"
  shows "\<exists>s v. to_srt_timestamp (float_add x y) = Inr s \<and>
               to_vtt_timestamp (float_add x y) = Inr v"
proof -
  obtain a e where x: "x = Finite a e" "0 \<le> a" "int (bitlen a) + e \<le> 1000"
    using assms(1) by (cases x) simp_all
  obtain b f where y: "y = Finite b f" "0 \<le> b" "int (bitlen b) + f \<le> 1000"
    using assms(2) by (cases y) simp_all
  have "- 1075 \<le> (1000::int)" "(1000::int) \<le> 1022" by simp_all
  then obtain m' e' where r: "float_add (Finite a e) (Finite b f) = Finite m' e'" "0 \<le> m'"
      "int (bitlen m') + e' \<le> 1000 + 2"
    using float_add_magnitude [OF x(2,3) y(2,3)] by blast
  from r(3) have "int (bitlen m') + e' \<le> 1013" by linarith
  with r(2) show ?thesis
    unfolding x(1) y(1) r(1) by (rule timestamps_return_magnitude)
qed

lemma format_srt_returns:
  assumes "list_all (\<lambda>s. float_in_range (start s) \<and> float_in_range (duration s)) xs"
  shows "\<exists>out. format_srt xs = Inr out"
proof -
  define st where "st = (\<lambda>s :: snippet. case to_srt_timestamp (start s) of
      Inr t \<Rightarrow> t | Inl err \<Rightarrow> [])"
  define en where "en = (\<lambda>s :: snippet. case to_srt_timestamp (float_add (start s) (duration s)) of
      Inr t \<Rightarrow> t | Inl err \<Rightarrow> [])"
  have "\<forall>s \<in> set xs. to_srt_timestamp (start s) = Inr (st s) \<and>
             to_srt_timestamp (float_add (start s) (duration s)) = Inr (en s)"
  proof
    fix s assume "s \<in> set xs"
    then have r: "float_in_range (start s)" "float_in_range (duration s)"
      using assms by (simp_all add: list_all_iff)
    obtain t where t: "to_srt_timestamp (start s) = Inr t"
      using timestamps_return [OF r(1)] by blast
    obtain u where u: "to_srt_timestamp (float_add (start s) (duration s)) = Inr u"
      using end_timestamps_return [OF r] by blast
    show "to_srt_timestamp (start s) = Inr (st s) \<and>
             to_srt_timestamp (float_add (start s) (duration s)) = Inr (en s)"
      by (simp add: st_def en_def t u)
  qed
  then have "\<exists>ls. srt_loop (int 1) xs [] = Inr ls"
    using srt_loop_cues [of xs st en 1 "[]"] by blast
  then show ?thesis by (auto simp: format_srt_def)
qed

lemma format_vtt_returns:
  assumes "list_all (\<lambda>s. float_in_range (start s) \<and> float_in_range (duration s)) xs"
  shows "\<exists>out. format_vtt xs = Inr out"
proof -
  define st where "st = (\<lambda>s :: snippet. case to_vtt_timestamp (start s) of
      Inr t \<Rightarrow> t | Inl err \<Rightarrow> [])"
  define en where "en = (\<lambda>s :: snippet. case to_vtt_timestamp (float_add (start s) (duration s)) of
      Inr t \<Rightarrow> t | Inl err \<Rightarrow> [])"
  have "\<forall>s \<in> set xs. to_vtt_timestamp (start s) = Inr (st s) \<and>
             to_vtt_timestamp (float_add (start s) (duration s)) = Inr (en s)"
  proof
    fix s assume "s \<in> set xs"
    then have r: "float_in_range (start s)" "float_in_range (duration s)"
      using assms by (simp_all add: list_all_iff)
    obtain t where t: "to_vtt_timestamp (start s) = Inr t"
      using timestamps_return [OF r(1)] by blast
    obtain u where u: "to_vtt_timestamp (float_add (start s) (duration s)) = Inr u"
      using end_timestamps_return [OF r] by blast
    show "to_vtt_timestamp (start s) = Inr (st s) \<and>
             to_vtt_timestamp (float_add (start s) (duration s)) = Inr (en s)"
      by (simp add: st_def en_def t u)
  qed
  then have "\<exists>ls. vtt_loop xs [''WEBVTT'', []] = Inr ls"
    using vtt_loop_cues [of xs st en "[''WEBVTT'', []]"] by blast
  then show ?thesis by (auto simp: format_vtt_def)
qed

lemma srt_loop_raises:
  "to_srt_timestamp (start x) = Inl err \<Longrightarrow> format_srt (x # xs) = Inl err"
  by (simp add: format_srt_def)

section \<open>The endpoint handler: results\<close>

lemma get_transcript_raised:
  "v \<noteq> [] \<Longrightarrow>
   try_body sub get_api v (parse_languages lang) output_format preserve_formatting = Inl e \<Longrightarrow>
   get_transcript sub get_api (Some v) lang output_format preserve_formatting =
     handle_exception sub e"
  by (simp add: get_transcript_def)

lemma try_body_list_raises:
  "list_transcripts a v = Inl e \<Longrightarrow> try_body sub (Inr a) v ls f p = Inl e"
  by (simp add: try_body_def)

lemma select_transcript_raises:
  "find_transcript a l ls = Inl e \<Longrightarrow> \<not> sub (cls e) NoTranscriptFound \<Longrightarrow>
   select_transcript sub a l ls = Inl e"
  by (simp add: select_transcript_def)

lemma select_transcript_fallback:
  "find_transcript a l ls = Inl e \<Longrightarrow> sub (cls e) NoTranscriptFound \<Longrightarrow>
   select_transcript sub a l ls = find_generated_transcript a l ls"
  by (simp add: select_transcript_def)

lemma try_body_select_raises:
  "list_transcripts a v = Inr l \<Longrightarrow> select_transcript sub a l ls = Inl e \<Longrightarrow>
   try_body sub (Inr a) v ls f p = Inl e"
  by (simp add: try_body_def)

lemma try_body_fetch_raises:
  "list_transcripts a v = Inr l \<Longrightarrow> select_transcript sub a l ls = Inr t \<Longrightarrow>
   fetch a t p = Inl e \<Longrightarrow> try_body sub (Inr a) v ls f p = Inl e"
  by (simp add: try_body_def)

lemma handle_exception_upstream_reached:
  "\<not> list_ex (\<lambda>c. sub (cls e) c) not_found_classes \<Longrightarrow> sub (cls e) YouTubeRequestFailed \<Longrightarrow>
   handle_exception sub e = HTTPException 502 (msg e)"
  by (simp add: handle_exception_def)

lemma handle_exception_base_class:
  "sub (cls e) YouTubeTranscriptApiException \<Longrightarrow>
   handle_exception sub e = HTTPException 404 (msg e)"
  by (simp add: handle_exception_def not_found_classes_def)

lemma get_transcript_request_failed_404:
  assumes "sub YouTubeRequestFailed YouTubeTranscriptApiException"
    and "v \<noteq> []"
    and "try_body sub get_api v (parse_languages lang) output_format preserve_formatting = Inl e"
    and "cls e = YouTubeRequestFailed"
  shows "get_transcript sub get_api (Some v) lang output_format preserve_formatting =
           HTTPException 404 (msg e)"
  using assms get_transcript_raised [OF assms(2,3)]
  by (simp add: handle_exception_base_class)

text \<open>
  Claim C1, at its failing input. The provider's \<^verbatim>\<open>list\<close> call raises
  \<^verbatim>\<open>YouTubeRequestFailed\<close> with the message \<open>boom\<close>. The class is an instance of
  \<^verbatim>\<open>YouTubeTranscriptApiException\<close>, which the first \<^verbatim>\<open>except\<close> clause lists: the response
  is 404 with the message, and the 502 clause below it is never reached.
\<close>

theorem get_transcript_request_failed:
  "get_transcript provider_subclass
     (Inr (const_api (Inl \<lparr>cls = YouTubeRequestFailed, msg = ''boom''\<rparr>) (Inr ()) (Inr ()) (Inr [])))
     (Some ''abc'') (Some ''en'') Json False
   = HTTPException 404 ''boom''"
  by code_simp

theorem get_transcript_request_failed_witness:
  "get_transcript provider_subclass
     (Inr (const_api (Inl \<lparr>cls = YouTubeRequestFailed, msg = ''boom''\<rparr>) (Inr ()) (Inr ()) (Inr [])))
     (Some ''abc'') (Some ''en'') Json False
   \<noteq> HTTPException 502 ''boom''"
  using get_transcript_request_failed by simp

lemma get_transcript_caught:
  assumes "v \<noteq> []"
    and "try_body sub get_api v (parse_languages lang) output_format preserve_formatting = Inl e"
    and "list_ex (\<lambda>c. sub (cls e) c) not_found_classes"
  shows "get_transcript sub get_api (Some v) lang output_format preserve_formatting =
           HTTPException 404 (msg e)"
  using assms by (simp add: get_transcript_def handle_exception_def)

text \<open>
  Claim C2, as amended. Let \<open>e\<close> be an exception that is an instance of one of the ten
  classes of the first \<^verbatim>\<open>except\<close> clause (the nine named kinds, or
  \<^verbatim>\<open>YouTubeTranscriptApiException\<close> for any other exception of the provider), whatever the
  class hierarchy. The response is 404 with the message of \<open>e\<close> as its detail when \<open>e\<close> is
  raised by the construction of the client, by the \<^verbatim>\<open>list\<close> call, by \<^verbatim>\<open>find_transcript\<close>
  unless \<open>e\<close> is an instance of \<^verbatim>\<open>NoTranscriptFound\<close>, by \<^verbatim>\<open>find_generated_transcript\<close>, or
  by \<^verbatim>\<open>fetch\<close>. A \<^verbatim>\<open>NoTranscriptFound\<close> that \<^verbatim>\<open>find_transcript\<close> raises is not reported:
  the handler looks a generated transcript up instead, and when that one is found and
  fetched, the response is the rendering of what was fetched.
\<close>

theorem get_transcript_provider_errors:
  assumes "v \<noteq> []" and "list_ex (\<lambda>c. sub (cls e) c) not_found_classes"
  shows
    "get_transcript sub (Inl e) (Some v) lang f p = HTTPException 404 (msg e) \<and>
     (list_transcripts a v = Inl e \<longrightarrow>
        get_transcript sub (Inr a) (Some v) lang f p = HTTPException 404 (msg e)) \<and>
     (list_transcripts a v = Inr l \<and>
      find_transcript a l (parse_languages lang) = Inl e \<and>
      \<not> sub (cls e) NoTranscriptFound \<longrightarrow>
        get_transcript sub (Inr a) (Some v) lang f p = HTTPException 404 (msg e)) \<and>
     (list_transcripts a v = Inr l \<and>
      find_transcript a l (parse_languages lang) = Inl e0 \<and>
      sub (cls e0) NoTranscriptFound \<and>
      find_generated_transcript a l (parse_languages lang) = Inl e \<longrightarrow>
        get_transcript sub (Inr a) (Some v) lang f p = HTTPException 404 (msg e)) \<and>
     (list_transcripts a v = Inr l \<and>
      find_transcript a l (parse_languages lang) = Inr t \<and>
      fetch a t p = Inl e \<longrightarrow>
        get_transcript sub (Inr a) (Some v) lang f p = HTTPException 404 (msg e)) \<and>
     (list_transcripts a v = Inr l \<and>
      find_transcript a l (parse_languages lang) = Inl e0 \<and>
      sub (cls e0) NoTranscriptFound \<and>
      find_generated_transcript a l (parse_languages lang) = Inr t \<and>
      fetch a t p = Inl e \<longrightarrow>
        get_transcript sub (Inr a) (Some v) lang f p = HTTPException 404 (msg e)) \<and>
     (list_transcripts a v = Inr l \<and>
      find_transcript a l (parse_languages lang) = Inl e0 \<and>
      sub (cls e0) NoTranscriptFound \<and>
      find_generated_transcript a l (parse_languages lang) = Inr t \<and>
      fetch a t p = Inr fetched \<longrightarrow>
        get_transcript sub (Inr a) (Some v) lang f p =
          (case render f fetched of Inl e' \<Rightarrow> handle_exception sub e' | Inr r \<Rightarrow> r))"
  using assms
  by (simp add: get_transcript_def try_body_def select_transcript_def handle_exception_def)

theorem get_transcript_provider_errors_witness:
  "get_transcript provider_subclass
     (Inr (const_api (Inl \<lparr>cls = TranscriptsDisabled, msg = ''disabled''\<rparr>) (Inr ()) (Inr ())
        (Inr [])))
     (Some ''abc'') (Some ''en'') Json False
   = HTTPException 404 ''disabled'' \<and>
   get_transcript provider_subclass
     (Inr (const_api (Inr ()) (Inl \<lparr>cls = NoTranscriptFound, msg = ''no manual track''\<rparr>)
        (Inl \<lparr>cls = NoTranscriptFound, msg = ''no track for en''\<rparr>) (Inr [])))
     (Some ''abc'') (Some ''en'') Srt False
   = HTTPException 404 ''no track for en'' \<and>
   get_transcript provider_subclass
     (Inr (const_api (Inr ()) (Inr ()) (Inr ())
        (Inl \<lparr>cls = OtherProviderClass ''CouldNotRetrieveTranscript'', msg = ''no data''\<rparr>)))
     (Some ''abc'') (Some ''en'') Vtt False
   = HTTPException 404 ''no data''"
proof -
  let ?d = "\<lparr>cls = TranscriptsDisabled, msg = ''disabled''\<rparr>"
  let ?n1 = "\<lparr>cls = NoTranscriptFound, msg = ''no manual track''\<rparr>"
  let ?n2 = "\<lparr>cls = NoTranscriptFound, msg = ''no track for en''\<rparr>"
  let ?o = "\<lparr>cls = OtherProviderClass ''CouldNotRetrieveTranscript'', msg = ''no data''\<rparr>"
  let ?a1 = "const_api (Inl ?d) (Inr ()) (Inr ()) (Inr [])"
  let ?a2 = "const_api (Inr ()) (Inl ?n1) (Inl ?n2) (Inr [])"
  let ?a3 = "const_api (Inr ()) (Inr ()) (Inr ()) (Inl ?o)"
  have v: "''abc'' \<noteq> []" by simp
  have cd: "list_ex (\<lambda>c. provider_subclass (cls ?d) c) not_found_classes" by code_simp
  have cn: "list_ex (\<lambda>c. provider_subclass (cls ?n2) c) not_found_classes" by code_simp
  have co: "list_ex (\<lambda>c. provider_subclass (cls ?o) c) not_found_classes" by code_simp
  have l1: "list_transcripts ?a1 ''abc'' = Inl ?d" by (simp add: const_api_def)
  have l2: "list_transcripts ?a2 ''abc'' = Inr ()"
    "find_transcript ?a2 () (parse_languages (Some ''en'')) = Inl ?n1"
    "provider_subclass (cls ?n1) NoTranscriptFound"
    "find_generated_transcript ?a2 () (parse_languages (Some ''en'')) = Inl ?n2"
    by (simp_all add: const_api_def provider_subclass_def)
  have l3: "list_transcripts ?a3 ''abc'' = Inr ()"
    "find_transcript ?a3 () (parse_languages (Some ''en'')) = Inr ()"
    "fetch ?a3 () False = Inl ?o"
    by (simp_all add: const_api_def)
  have r1: "get_transcript provider_subclass (Inr ?a1) (Some ''abc'') (Some ''en'') Json False
      = HTTPException 404 (msg ?d)"
    using get_transcript_provider_errors
      [where sub = provider_subclass and e = ?d and v = "''abc''" and a = ?a1
         and lang = "Some ''en''" and f = Json and p = False]
      v cd l1
    by blast
  have r2: "get_transcript provider_subclass (Inr ?a2) (Some ''abc'') (Some ''en'') Srt False
      = HTTPException 404 (msg ?n2)"
    using get_transcript_provider_errors
      [where sub = provider_subclass and e = ?n2 and v = "''abc''" and a = ?a2
         and lang = "Some ''en''" and f = Srt and p = False and l = "()" and ?e0.0 = ?n1]
      v cn l2
    by blast
  have r3: "get_transcript provider_subclass (Inr ?a3) (Some ''abc'') (Some ''en'') Vtt False
      = HTTPException 404 (msg ?o)"
    using get_transcript_provider_errors
      [where sub = provider_subclass and e = ?o and v = "''abc''" and a = ?a3
         and lang = "Some ''en''" and f = Vtt and p = False and l = "()" and t = "()"]
      v co l3
    by blast
  from r1 r2 r3 show ?thesis by simp
qed

theorem get_transcript_swallowed_not_found_counterexample:
  "get_transcript provider_subclass
     (Inr (const_api (Inr ()) (Inl \<lparr>cls = NoTranscriptFound, msg = ''no manual track''\<rparr>)
        (Inr ()) (Inr [])))
     (Some ''abc'') (Some ''en'') Json False
   = JSONResponse [] \<and>
   get_transcript provider_subclass
     (Inr (const_api (Inr ()) (Inl \<lparr>cls = NoTranscriptFound, msg = ''no manual track''\<rparr>)
        (Inr ()) (Inr [])))
     (Some ''abc'') (Some ''en'') Json False
   \<noteq> HTTPException 404 ''no manual track''"
  by code_simp

end
